theory Spec2Isabelle
  imports Main "HOL-Library.Mapping" "HOL-Library.AList_Mapping"
begin

section \<open>Type descriptors and dynamic values\<close>

text \<open>
  A \<^verbatim>\<open>reflect.Type\<close> is a finite tree. \<open>TPtr\<close>, \<open>TSlice\<close> and \<open>TStruct\<close> are the
  types of the three kinds the generator tells apart. \<open>TBool\<close>, \<open>TInt\<close> and
  \<open>TString\<close> are the predeclared types only: \<^verbatim>\<open>bool\<close>, the predeclared integer
  types (\<^verbatim>\<open>int\<close>, \<^verbatim>\<open>int8\<close> ... \<^verbatim>\<open>uint64\<close>, \<^verbatim>\<open>uintptr\<close>) and \<^verbatim>\<open>string\<close>, whose zero
  values print as \<^verbatim>\<open>false\<close>, \<^verbatim>\<open>0\<close> and the empty text. \<open>TOther n\<close> is every
  other type that is not a pointer, slice or struct, named by its name \<open>n\<close>:
  the types of the remaining kinds (floats, maps, arrays, channels, functions,
  interfaces) and every defined type whose underlying type is a bool, an
  integer or a string (such as \<^verbatim>\<open>time.Duration\<close>), which may bring its own
  \<^verbatim>\<open>String\<close>, \<^verbatim>\<open>Error\<close>, \<^verbatim>\<open>Format\<close> or \<^verbatim>\<open>MarshalJSON\<close> method; how its zero value
  prints and encodes is the library's business.
  A struct field carries what \<^verbatim>\<open>reflect.StructField\<close> gives the walker: \<open>Name\<close>,
  \<open>PkgPath\<close> (empty for an exported field), \<open>Anonymous\<close> (an embedded field), the
  tag as the list of its key/value pairs, and the field's type.
  Type descriptors that refer to themselves (a struct embedding a pointer to
  itself) are not finite trees and are outside this model.
\<close>

datatype gotype = TBool | TInt | TString | TPtr gotype | TSlice gotype
  | TStruct "sfield list" | TOther string
and sfield = SField (Name: string) (PkgPath: string) (Anonymous: bool)
    (Tag: "(string \<times> string) list") (Type: gotype)

text \<open>\<^verbatim>\<open>t.Kind()\<close> as far as the generator asks: it compares the kind with
  \<^verbatim>\<open>reflect.Ptr\<close>, \<^verbatim>\<open>reflect.Slice\<close> and \<^verbatim>\<open>reflect.Struct\<close> only, so every other
  kind is \<open>KOther\<close>.\<close>

datatype kind = KPtr | KSlice | KStruct | KOther

fun Kind :: "gotype \<Rightarrow> kind" where
  "Kind (TPtr e) = KPtr"
| "Kind (TSlice e) = KSlice"
| "Kind (TStruct fs) = KStruct"
| "Kind t = KOther"

text \<open>\<^verbatim>\<open>if t.Kind() == reflect.Ptr { t = t.Elem() }\<close>: one level of dereference.\<close>

fun derefPtr :: "gotype \<Rightarrow> gotype" where
  "derefPtr (TPtr e) = e"
| "derefPtr t = t"

text \<open>\<^verbatim>\<open>field.Tag.Get(key)\<close>: the value of the first pair with that key, else the
  empty string.\<close>

definition TagGet :: "(string \<times> string) list \<Rightarrow> string \<Rightarrow> string" where
  "TagGet tag k = (case map_of tag k of Some v \<Rightarrow> v | None \<Rightarrow> [])"

text \<open>
  A value held in an \<^verbatim>\<open>any\<close>: nil, a \<^verbatim>\<open>bool\<close>, a value of a predeclared integer
  type, a \<^verbatim>\<open>string\<close>, a \<^verbatim>\<open>[]any\<close>, or \<open>VZero t\<close>, the zero value
  \<^verbatim>\<open>reflect.Zero(t).Interface()\<close> of any other type \<open>t\<close>, which keeps its type.
\<close>

datatype val = VNil | VBool bool | VInt int | VStr string | VSlice "val list"
  | VZero gotype

fun reflectZero :: "gotype \<Rightarrow> val" where
  "reflectZero TBool = VBool False"
| "reflectZero TInt = VInt 0"
| "reflectZero TString = VStr []"
| "reflectZero t = VZero t"

section \<open>The standard library the generator calls\<close>

text \<open>
  The encoders of \<^verbatim>\<open>encoding/json\<close> and the printing by \<^verbatim>\<open>fmt\<close> of the zero value
  of a type that is not predeclared are not code of this repository; the
  generator is modelled for any behaviour of them. \<open>jsonMarshal v\<close> is
  \<^verbatim>\<open>json.Marshal(v)\<close> and \<open>jsonMarshalIndent m prefix indent\<close> is
  \<^verbatim>\<open>json.MarshalIndent(m, prefix, indent)\<close> on a \<^verbatim>\<open>map[string]any\<close>; \<open>Inl\<close> carries
  the error's message. \<open>sprintZero t\<close> is \<^verbatim>\<open>fmt.Sprint\<close> of the zero value of \<open>t\<close>,
  which calls the type's own \<^verbatim>\<open>String\<close>, \<^verbatim>\<open>Error\<close> or \<^verbatim>\<open>Format\<close> method when it
  has one (\<^verbatim>\<open>0s\<close> for \<^verbatim>\<open>time.Duration\<close>).
\<close>

record golib =
  jsonMarshal :: "val \<Rightarrow> string + string"
  jsonMarshalIndent :: "(string, val) mapping \<Rightarrow> string \<Rightarrow> string \<Rightarrow> string + string"
  sprintZero :: "gotype \<Rightarrow> string"

subsection \<open>package strings\<close>

fun HasPrefix :: "string \<Rightarrow> string \<Rightarrow> bool" where
  "HasPrefix s pre = (take (length pre) s = pre)"

fun TrimPrefix :: "string \<Rightarrow> string \<Rightarrow> string" where
  "TrimPrefix s pre = (if HasPrefix s pre then drop (length pre) s else s)"

text \<open>\<^verbatim>\<open>strings.Trim(s, cutset)\<close>: the leading and trailing bytes of the cutset
  removed.\<close>

definition Trim :: "string \<Rightarrow> string \<Rightarrow> string" where
  "Trim s cutset =
     rev (dropWhile (\<lambda>c. c \<in> set cutset) (rev (dropWhile (\<lambda>c. c \<in> set cutset) s)))"

text \<open>\<^verbatim>\<open>strings.Split(s, sep)\<close> for a separator of one byte, as the generator
  calls it: the pieces between the separators, at least one piece.\<close>

fun Split :: "string \<Rightarrow> char \<Rightarrow> string list" where
  "Split [] sep = [[]]"
| "Split (c # cs) sep =
     (if c = sep then [] # Split cs sep
      else (case Split cs sep of
              [] \<Rightarrow> [[c]]
            | w # ws \<Rightarrow> (c # w) # ws))"

fun Join :: "string list \<Rightarrow> string \<Rightarrow> string" where
  "Join [] sep = []"
| "Join [x] sep = x"
| "Join (x # y # ys) sep = x @ sep @ Join (y # ys) sep"

subsection \<open>fmt.Sprint\<close>

text \<open>\<^verbatim>\<open>fmt.Sprint\<close> of one operand: a string as it is, a value of a predeclared
  bool or integer type in its default format, nil as \<^verbatim>\<open><nil>\<close>, a \<^verbatim>\<open>[]any\<close> as its
  elements in brackets separated by spaces, and the zero value of any other
  type as the library prints it.\<close>

definition digitChar :: "nat \<Rightarrow> char" where
  "digitChar d = ''0123456789'' ! d"

function natStr :: "nat \<Rightarrow> string" where
  "natStr n = (if n < 10 then [digitChar n] else natStr (n div 10) @ [digitChar (n mod 10)])"
  by pat_completeness auto
termination
  by (relation "measure (\<lambda>n. n)") auto

declare natStr.simps [simp del]

definition intStr :: "int \<Rightarrow> string" where
  "intStr i = (if i < 0 then CHR ''-'' # natStr (nat (- i)) else natStr (nat i))"

fun Sprint :: "golib \<Rightarrow> val \<Rightarrow> string" where
  "Sprint lib VNil = ''<nil>''"
| "Sprint lib (VBool b) = (if b then ''true'' else ''false'')"
| "Sprint lib (VInt i) = intStr i"
| "Sprint lib (VStr s) = s"
| "Sprint lib (VSlice vs) = ''['' @ Join (map (Sprint lib) vs) '' '' @ '']''"
| "Sprint lib (VZero t) = sprintZero lib t"

section \<open>The document model of the Postman collection\<close>

text \<open>The fields the generator sets; every other field of the library's structs
  keeps its zero value.\<close>

record FormParam =
  fp_Key :: string
  fp_Value :: string
  fp_Type :: string
  fp_Description :: string

record QueryParam =
  qp_Key :: string
  qp_Value :: string
  qp_Description :: "string option"

record Variable =
  var_Key :: string
  var_Type :: string
  var_Value :: string
  var_Description :: string

record Header =
  hdr_Key :: string
  hdr_Value :: string

record Body =
  body_Mode :: string
  body_Raw :: string
  body_FormData :: "FormParam list option"
  body_Options :: "string option"

record URL =
  url_Raw :: string
  url_Host :: "string list"
  url_Path :: "string list"
  url_Query :: "QueryParam list"
  url_Variables :: "Variable list"

record Request =
  req_URL :: URL
  req_Method :: string
  req_Header :: "Header list"
  req_Body :: Body

text \<open>\<^verbatim>\<open>postman.Items\<close>: a folder (no request) or a request item, with its
  children.\<close>

datatype items = Items (item_Name: string) (item_Request: "Request option")
    (item_Items: "items list")

record AuthParam =
  ap_Key :: string
  ap_Value :: string
  ap_Type :: string

record Collection =
  col_Name :: string
  col_Description :: string
  col_Auth :: "(string \<times> AuthParam list) option"
  col_Variables :: "Variable list"
  col_Items :: "items list"

text \<open>A generator as \<^verbatim>\<open>NewPostmanGen\<close> builds it: the collection and the map of
  defaults are present (not nil).\<close>

record PostmanGen =
  collection :: Collection
  placeholderDefaults :: "string \<rightharpoonup> string"

section \<open>The generator\<close>

definition NewPostmanGen :: "string \<Rightarrow> string \<Rightarrow> PostmanGen" where
  "NewPostmanGen name description =
     \<lparr> collection =
         \<lparr> col_Name = name, col_Description = description,
           col_Auth = Some (''bearer'',
             [\<lparr> ap_Key = ''token'', ap_Value = ''{{token}}'', ap_Type = ''string'' \<rparr>]),
           col_Variables = [], col_Items = [] \<rparr>,
       placeholderDefaults = Map.empty \<rparr>"

definition AddVariable :: "PostmanGen \<Rightarrow> string \<Rightarrow> string \<Rightarrow> PostmanGen" where
  "AddVariable p k v =
     p\<lparr> collection := (collection p)\<lparr> col_Variables := col_Variables (collection p) @
         [\<lparr> var_Key = k, var_Type = ''string'', var_Value = v, var_Description = [] \<rparr>] \<rparr> \<rparr>"

definition AddPlaceholder :: "PostmanGen \<Rightarrow> string \<Rightarrow> string \<Rightarrow> PostmanGen" where
  "AddPlaceholder p k v = p\<lparr> placeholderDefaults := (placeholderDefaults p)(k \<mapsto> v) \<rparr>"

subsection \<open>walkStructFields\<close>

text \<open>The walker calls \<open>fn\<close> on every exported field in declaration order; an
  embedded struct (or pointer to struct) is walked in place. The callback's
  effect on the variables it closes over is the state \<open>s\<close>.\<close>

lemma size_derefPtr: "size (derefPtr t) \<le> size t"
  by (cases t) auto

function walkStructFields :: "gotype \<Rightarrow> (sfield \<Rightarrow> 's \<Rightarrow> 's) \<Rightarrow> 's \<Rightarrow> 's"
  and walkFieldsFrom :: "sfield list \<Rightarrow> (sfield \<Rightarrow> 's \<Rightarrow> 's) \<Rightarrow> 's \<Rightarrow> 's"
where
  "walkStructFields t fn s =
     (case derefPtr t of TStruct fs \<Rightarrow> walkFieldsFrom fs fn s | _ \<Rightarrow> s)"
| "walkFieldsFrom [] fn s = s"
| "walkFieldsFrom (f # fs) fn s =
     (if PkgPath f \<noteq> [] then walkFieldsFrom fs fn s
      else if Anonymous f \<and> Kind (derefPtr (Type f)) = KStruct
        then walkFieldsFrom fs fn (walkStructFields (derefPtr (Type f)) fn s)
      else walkFieldsFrom fs fn (fn f s))"
  by pat_completeness auto

termination
proof (relation "measure (\<lambda>x. case x of Inl (t, fn, s) \<Rightarrow> 2 * size t
                                     | Inr (fs, fn, s) \<Rightarrow> 2 * size_list size fs + 1)", goal_cases)
  case 1
  show ?case by simp
next
  case (2 t fn s fs)
  have "size (derefPtr t) \<le> size t" by (rule size_derefPtr)
  with 2 show ?case by simp
next
  case (3 f fs fn s)
  show ?case by simp
next
  case (4 f fs fn s)
  have "size (derefPtr (Type f)) \<le> size (Type f)" by (rule size_derefPtr)
  moreover have "size (Type f) < size f" by (cases f) simp
  ultimately show ?case by simp
next
  case (5 f fs fn s)
  show ?case by simp
next
  case (6 f fs fn s)
  show ?case by simp
qed

subsection \<open>TypeZeroValue\<close>

fun TypeZeroValue :: "golib \<Rightarrow> gotype \<Rightarrow> bool \<Rightarrow> val" where
  "TypeZeroValue lib (TPtr e) preferString = TypeZeroValue lib e preferString"
| "TypeZeroValue lib (TStruct fs) preferString =
     (if preferString
      then (case jsonMarshal lib (reflectZero (TStruct fs)) of
              Inl err \<Rightarrow> VNil
            | Inr jsonBytes \<Rightarrow> VStr jsonBytes)
      else reflectZero (TStruct fs))"
| "TypeZeroValue lib (TSlice e) preferString = VSlice [TypeZeroValue lib e preferString]"
| "TypeZeroValue lib t preferString = reflectZero t"

subsection \<open>Register: the per-field callback\<close>

text \<open>The key of a routing role: the tag's value, or the field's name when the
  tag is empty or the sentinel \<^verbatim>\<open>-\<close>.\<close>

definition tagKey :: "sfield \<Rightarrow> string \<Rightarrow> string" where
  "tagKey field role =
     (let t = TagGet (Tag field) role
      in if t = [] \<or> t = ''-'' then Name field else t)"

text \<open>\<open>placeholderValue\<close> after the probe of the caller's defaults (the
  \<^verbatim>\<open>if\<close>/\<^verbatim>\<open>else if\<close> chain over the five keys).\<close>

definition resolvePlaceholder :: "(string \<rightharpoonup> string) \<Rightarrow> sfield \<Rightarrow> val" where
  "resolvePlaceholder defaults field =
     (let example = TagGet (Tag field) ''example''
      in if example = [] \<or> example = ''-'' then
           (case defaults (tagKey field ''json'') of Some defaultValue \<Rightarrow> VStr defaultValue
            | None \<Rightarrow>
           (case defaults (tagKey field ''form'') of Some defaultValue \<Rightarrow> VStr defaultValue
            | None \<Rightarrow>
           (case defaults (tagKey field ''formFile'') of Some defaultValue \<Rightarrow> VStr defaultValue
            | None \<Rightarrow>
           (case defaults (tagKey field ''query'') of Some defaultValue \<Rightarrow> VStr defaultValue
            | None \<Rightarrow>
           (case defaults (tagKey field ''param'') of Some defaultValue \<Rightarrow> VStr defaultValue
            | None \<Rightarrow> VStr example)))))
         else VStr example)"

text \<open>The \<^verbatim>\<open>value\<close> the JSON branch stores: the placeholder, or the zero value
  with \<^verbatim>\<open>preferString\<close> false when the placeholder is empty or the sentinel.\<close>

definition jsonValue :: "golib \<Rightarrow> (string \<rightharpoonup> string) \<Rightarrow> sfield \<Rightarrow> val" where
  "jsonValue lib defaults field =
     (let placeholderValue = resolvePlaceholder defaults field
      in if placeholderValue = VStr [] \<or> placeholderValue = VStr ''-''
         then TypeZeroValue lib (Type field) False
         else placeholderValue)"

text \<open>\<open>placeholderValue\<close> as the form, query and param branches read it: replaced
  by the zero value with \<^verbatim>\<open>preferString\<close> true when empty or the sentinel.\<close>

definition finalPlaceholder :: "golib \<Rightarrow> (string \<rightharpoonup> string) \<Rightarrow> sfield \<Rightarrow> val" where
  "finalPlaceholder lib defaults field =
     (let placeholderValue = resolvePlaceholder defaults field
      in if placeholderValue = VStr [] \<or> placeholderValue = VStr ''-''
         then TypeZeroValue lib (Type field) True
         else placeholderValue)"

record fieldAcc =
  jsonParams :: "(string, val) mapping"
  formParams :: "FormParam list"
  queryParams :: "QueryParam list"
  pathVariables :: "Variable list"

definition fieldCallback :: "golib \<Rightarrow> (string \<rightharpoonup> string) \<Rightarrow> sfield \<Rightarrow> fieldAcc \<Rightarrow> fieldAcc" where
  "fieldCallback lib defaults field acc =
     (let jsonTag = TagGet (Tag field) ''json'';
          formTag = TagGet (Tag field) ''form'';
          formFileTag = TagGet (Tag field) ''formFile'';
          queryTag = TagGet (Tag field) ''query'';
          paramTag = TagGet (Tag field) ''param'';
          description = TagGet (Tag field) ''description'';
          acc1 = (if jsonTag \<noteq> [] \<and> jsonTag \<noteq> ''-''
                  then acc\<lparr> jsonParams := Mapping.update (tagKey field ''json'')
                         (jsonValue lib defaults field) (jsonParams acc) \<rparr>
                  else acc);
          placeholderValue = finalPlaceholder lib defaults field;
          acc2 = (if formTag \<noteq> [] \<and> formTag \<noteq> ''-''
                  then acc1\<lparr> formParams := formParams acc1 @
                         [\<lparr> fp_Key = tagKey field ''form'',
                            fp_Value = Sprint lib placeholderValue,
                            fp_Type = ''text'',
                            fp_Description = description \<rparr>] \<rparr>
                  else acc1);
          acc3 = (if formFileTag \<noteq> [] \<and> formFileTag \<noteq> ''-''
                  then acc2\<lparr> formParams := formParams acc2 @
                         [\<lparr> fp_Key = tagKey field ''formFile'',
                            fp_Value = Sprint lib placeholderValue,
                            fp_Type = ''file'',
                            fp_Description = description \<rparr>] \<rparr>
                  else acc2);
          acc4 = (if queryTag \<noteq> [] \<and> queryTag \<noteq> ''-''
                  then acc3\<lparr> queryParams := queryParams acc3 @
                         [\<lparr> qp_Key = tagKey field ''query'',
                            qp_Value = Sprint lib placeholderValue,
                            qp_Description = Some description \<rparr>] \<rparr>
                  else acc3)
      in (if paramTag \<noteq> [] \<and> paramTag \<noteq> ''-''
          then acc4\<lparr> pathVariables := pathVariables acc4 @
                 [\<lparr> var_Key = tagKey field ''param'',
                    var_Type = ''string'',
                    var_Value = Sprint lib placeholderValue,
                    var_Description = [] \<rparr>] \<rparr>
          else acc4))"

subsection \<open>Register: the path and its variables\<close>

text \<open>The inner loop over the path-variable candidates: the first candidate
  whose key is \<open>k\<close> gives the value and the description, else the defaults passed
  in stay.\<close>

fun lookupPathVariable :: "string \<Rightarrow> Variable list \<Rightarrow> string \<times> string \<Rightarrow> string \<times> string" where
  "lookupPathVariable k [] dflt = dflt"
| "lookupPathVariable k (pv # pvs) dflt =
     (if var_Key pv = k then (var_Value pv, var_Description pv)
      else lookupPathVariable k pvs dflt)"

text \<open>The variable appended for a segment \<^verbatim>\<open>:k\<close>: value and description from the
  first matching candidate, else the segment's own text and no description.\<close>

definition urlVariableFor :: "Variable list \<Rightarrow> string \<Rightarrow> Variable" where
  "urlVariableFor pvs k =
     (let (defaultValue, description) = lookupPathVariable k pvs ('':'' @ k, [])
      in \<lparr> var_Key = k, var_Type = ''string'', var_Value = defaultValue,
           var_Description = description \<rparr>)"

text \<open>The loop over the path segments: \<open>visited\<close> holds the segments already seen
  (as rewritten in place), \<open>urlVariables\<close> the variables appended so far.\<close>

fun pathLoop :: "Variable list \<Rightarrow> string list \<Rightarrow> string list \<Rightarrow> Variable list
    \<Rightarrow> string list \<times> Variable list" where
  "pathLoop pvs [] visited urlVariables = (visited, urlVariables)"
| "pathLoop pvs (segment # rest) visited urlVariables =
     (if HasPrefix segment '':'' then
        (let k = TrimPrefix segment '':''
         in pathLoop pvs rest (visited @ ['':'' @ k]) (urlVariables @ [urlVariableFor pvs k]))
      else pathLoop pvs rest (visited @ [segment]) urlVariables)"

subsection \<open>Register: the compiled request\<close>

datatype error =
    InvalidSpec         \<comment> \<open>invalid spec: must contain method, path, and inputType\<close>
  | InvalidObjectType   \<comment> \<open>invalid object type: must be a struct or pointer to struct\<close>
  | MarshalFailed string \<comment> \<open>failed to marshal json body, wrapping the encoder's error\<close>

definition emptyAcc :: fieldAcc where
  "emptyAcc = \<lparr> jsonParams = Mapping.empty, formParams = [], queryParams = [], pathVariables = [] \<rparr>"

text \<open>The four collections after the walk over the fields of the type.\<close>

definition collectFields :: "golib \<Rightarrow> (string \<rightharpoonup> string) \<Rightarrow> gotype \<Rightarrow> fieldAcc" where
  "collectFields lib defaults typ = walkStructFields typ (fieldCallback lib defaults) emptyAcc"

text \<open>From the field walk to the body decision: the path segments and the
  request, or the error of the JSON encoder.\<close>

definition buildRequest :: "golib \<Rightarrow> (string \<rightharpoonup> string) \<Rightarrow> string \<Rightarrow> string \<Rightarrow> gotype
    \<Rightarrow> error + (string list \<times> Request)" where
  "buildRequest lib defaults method path typ =
     (let acc = collectFields lib defaults typ;
          (pathSegments, urlVariables) =
             pathLoop (pathVariables acc) (Split (Trim path ''/'') CHR ''/'') [] [];
          processedPath = ''/'' @ Join pathSegments ''/'';
          url = \<lparr> url_Raw = ''{{base_url}}'' @ processedPath,
                  url_Host = [''{{base_url}}''],
                  url_Path = pathSegments,
                  url_Query = queryParams acc,
                  url_Variables = urlVariables \<rparr>;
          request = \<lparr> req_URL = url, req_Method = method, req_Header = [],
                      req_Body = \<lparr> body_Mode = [], body_Raw = [],
                                   body_FormData = None, body_Options = None \<rparr> \<rparr>
      in if formParams acc \<noteq> [] then
           Inr (pathSegments,
                request\<lparr> req_Header := req_Header request @
                           [\<lparr> hdr_Key = ''Content-Type'', hdr_Value = ''multipart/form-data'' \<rparr>],
                         req_Body := (req_Body request)\<lparr> body_Mode := ''formdata'',
                           body_FormData := Some (formParams acc) \<rparr> \<rparr>)
         else if \<not> Mapping.is_empty (jsonParams acc) then
           (case jsonMarshalIndent lib (jsonParams acc) [] ''  '' of
              Inl err \<Rightarrow> Inl (MarshalFailed err)
            | Inr bodyBytes \<Rightarrow>
                Inr (pathSegments,
                     request\<lparr> req_Header := req_Header request @
                                [\<lparr> hdr_Key = ''Content-Type'', hdr_Value = ''application/json'' \<rparr>],
                              req_Body := (req_Body request)\<lparr> body_Mode := ''raw'',
                                body_Raw := bodyBytes, body_Options := Some ''json'' \<rparr> \<rparr>))
         else Inr (pathSegments, request))"

subsection \<open>Register: filing the request into the folder tree\<close>

text \<open>The search of the current slice: the index of the first item with that
  name and no request.\<close>

fun findFolder :: "string \<Rightarrow> items list \<Rightarrow> nat option" where
  "findFolder segment [] = None"
| "findFolder segment (existingItem # others) =
     (if item_Name existingItem = segment \<and> item_Request existingItem = None then Some 0
      else map_option Suc (findFolder segment others))"

text \<open>The walk over the folder segments, as a function of the slice the walk
  stands at: a found folder gets its children updated in place (a nil slice of
  children is the empty list here), a missing one is appended; at the end of the
  walk the item is appended.\<close>

fun attachItem :: "string list \<Rightarrow> items \<Rightarrow> items list \<Rightarrow> items list" where
  "attachItem [] item cur = cur @ [item]"
| "attachItem (segment # rest) item cur =
     (case findFolder segment cur of
        None \<Rightarrow> cur @ [Items segment None (attachItem rest item [])]
      | Some i \<Rightarrow>
          cur[i := Items (item_Name (cur ! i)) (item_Request (cur ! i))
                     (attachItem rest item (item_Items (cur ! i)))])"

subsection \<open>Register\<close>

text \<open>A value of the spec map: a string, a type descriptor, or anything else.\<close>

datatype specval = SVString string | SVType gotype | SVOther

text \<open>The type assertions \<^verbatim>\<open>spec[k].(string)\<close> and \<^verbatim>\<open>spec[k].(reflect.Type)\<close>; a
  missing key reads as nil and fails both.\<close>

fun asString :: "specval option \<Rightarrow> string option" where
  "asString (Some (SVString s)) = Some s"
| "asString _ = None"

fun asType :: "specval option \<Rightarrow> gotype option" where
  "asType (Some (SVType t)) = Some t"
| "asType _ = None"

text \<open>
  Register returns the generator after the call and the error (\<open>None\<close> for nil).
  Every error return stands before the first write to the collection. The
  library calls are taken to return; the only run-time fault the body itself
  could raise is the index \<^verbatim>\<open>len(pathSegments)-1\<close> on an
  empty slice; the deferred \<^verbatim>\<open>recover()\<close> would swallow it and the call return nil
  with nothing filed, which is the branch for \<open>[]\<close> below.
\<close>

definition Register :: "golib \<Rightarrow> PostmanGen \<Rightarrow> (string \<rightharpoonup> specval) \<Rightarrow> PostmanGen \<times> error option" where
  "Register lib p spec =
     (case (asString (spec ''method''), asString (spec ''path''), asType (spec ''inputType'')) of
        (Some method, Some path, Some inputType) \<Rightarrow>
          (let typ = derefPtr inputType
           in if Kind typ \<noteq> KStruct then (p, Some InvalidObjectType)
              else (case buildRequest lib (placeholderDefaults p) method path typ of
                      Inl err \<Rightarrow> (p, Some err)
                    | Inr (pathSegments, request) \<Rightarrow>
                        (if pathSegments = [] then (p, None)
                         else (p\<lparr> collection := (collection p)\<lparr> col_Items :=
                                   attachItem (butlast pathSegments)
                                     (Items (last pathSegments) (Some request) [])
                                     (col_Items (collection p)) \<rparr> \<rparr>, None))))
      | _ \<Rightarrow> (p, Some InvalidSpec))"

section \<open>Observations used in the statements\<close>

text \<open>A stand-in for the library on the inputs of the examples below: the zero
  value of the empty struct encodes as \<^verbatim>\<open>{}\<close>, the map with the one entry
  \<^verbatim>\<open>age: 0\<close> is indented as the encoder prints it, any other input is refused;
  the zero value of \<^verbatim>\<open>time.Duration\<close> prints as \<^verbatim>\<open>0s\<close>.\<close>

definition exampleLib :: golib where
  "exampleLib =
     \<lparr> jsonMarshal = (\<lambda>v. if v = VZero (TStruct []) then Inr ''{}'' else Inl ''unsupported''),
       jsonMarshalIndent = (\<lambda>m prefix indent.
          if Mapping.keys m = {''age''} \<and> Mapping.lookup m ''age'' = Some (VInt 0)
             \<and> prefix = [] \<and> indent = ''  ''
          then Inr (''{'' @ [CHR 0x0A] @ ''  '' @ [CHR 0x22] @ ''age'' @ [CHR 0x22] @ '': 0''
                    @ [CHR 0x0A] @ ''}'')
          else Inl ''unsupported''),
       sprintZero = (\<lambda>t. if t = TStruct [] then ''{}''
                         else if t = TOther ''time.Duration'' then ''0s'' else ''?'') \<rparr>"

text \<open>The request type and the registration of \<^verbatim>\<open>GET /users/:userId\<close> in
  \<^verbatim>\<open>examples/main.go\<close>, and a request with the one field \<^verbatim>\<open>Age int `json:"age"`\<close>.\<close>

definition GetUserRequest :: gotype where
  "GetUserRequest = TStruct
     [SField ''UserID'' [] False
        [(''param'', ''userId''), (''description'', ''ID of the user to retrieve''),
         (''example'', ''user-abc-123'')] TString,
      SField ''Format'' [] False
        [(''query'', ''format''),
         (''description'', ''Optional response format (e.g., 'short')''),
         (''example'', ''full'')] TString,
      SField ''TenantID'' [] False [(''query'', ''tenant_id'')] TString]"

definition getUserSpec :: "string \<rightharpoonup> specval" where
  "getUserSpec = [''method'' \<mapsto> SVString ''GET'', ''path'' \<mapsto> SVString ''/users/:userId'',
                  ''inputType'' \<mapsto> SVType GetUserRequest]"

definition ageSpec :: "string \<rightharpoonup> specval" where
  "ageSpec = [''method'' \<mapsto> SVString ''POST'', ''path'' \<mapsto> SVString ''/users'',
              ''inputType'' \<mapsto> SVType (TStruct [SField ''Age'' [] False [(''json'', ''age'')] TInt])]"

text \<open>A request with nothing set but its method, for leaves in example trees.\<close>

definition exampleRequest :: Request where
  "exampleRequest =
     \<lparr> req_URL = \<lparr> url_Raw = [], url_Host = [], url_Path = [], url_Query = [],
                   url_Variables = [] \<rparr>,
       req_Method = ''GET'', req_Header = [],
       req_Body = \<lparr> body_Mode = [], body_Raw = [], body_FormData = None,
                    body_Options = None \<rparr> \<rparr>"

text \<open>The fields the walker hands to its callback, in the order of the calls.\<close>

definition visitedFields :: "gotype \<Rightarrow> sfield list" where
  "visitedFields t = walkStructFields t (\<lambda>f fs. fs @ [f]) []"

text \<open>A tag that routes: present and not the sentinel.\<close>

definition tagged :: "sfield \<Rightarrow> string \<Rightarrow> bool" where
  "tagged field role = (TagGet (Tag field) role \<noteq> [] \<and> TagGet (Tag field) role \<noteq> ''-'')"

text \<open>A folder is an item with no request. The children of the folder reached
  from a slice by a path of folder names, taking at each level the folder the
  search of Register finds.\<close>

definition isFolder :: "items \<Rightarrow> bool" where
  "isFolder x = (item_Request x = None)"

fun folderAt :: "string list \<Rightarrow> items list \<Rightarrow> items list option" where
  "folderAt [] cur = Some cur"
| "folderAt (segment # rest) cur =
     (case findFolder segment cur of
        None \<Rightarrow> None
      | Some i \<Rightarrow> folderAt rest (item_Items (cur ! i)))"

fun countNodes :: "items \<Rightarrow> nat" where
  "countNodes (Items n r cs) = Suc (sum_list (map countNodes cs))"

text \<open>The tree invariant: among the children of any one node, the folders have
  pairwise different names.\<close>

fun uniqueGroups :: "items \<Rightarrow> bool" where
  "uniqueGroups (Items n r cs) =
     (distinct (map item_Name (filter isFolder cs)) \<and> (\<forall>c \<in> set cs. uniqueGroups c))"

definition treeInvariant :: "items list \<Rightarrow> bool" where
  "treeInvariant cs =
     (distinct (map item_Name (filter isFolder cs)) \<and> (\<forall>c \<in> set cs. uniqueGroups c))"

section \<open>Helper lemmas\<close>

lemma Split_nonempty: "Split s c \<noteq> []"
  by (induction s) (auto split: list.splits)

lemma collect_append_both:
  "(\<forall>acc. walkStructFields t (\<lambda>f fs. fs @ [f]) acc = acc @ walkStructFields t (\<lambda>f fs. fs @ [f]) [])"
  "(\<forall>acc. walkFieldsFrom fs0 (\<lambda>f fs. fs @ [f]) acc = acc @ walkFieldsFrom fs0 (\<lambda>f fs. fs @ [f]) [])"
proof (induction t "\<lambda>(f::sfield) (u::unit). u" "()" and fs0 "\<lambda>(f::sfield) (u::unit). u" "()"
       rule: walkStructFields_walkFieldsFrom.induct)
  case (1 t)
  show ?case
  proof (cases "\<exists>fs. derefPtr t = TStruct fs")
    case True
    then obtain fs where d: "derefPtr t = TStruct fs" by blast
    show ?thesis unfolding walkStructFields.simps d gotype.case by (rule 1[OF d])
  next
    case False
    then show ?thesis by (cases "derefPtr t") simp_all
  qed
next
  case 2
  show ?case by simp
next
  case (3 f fs)
  show ?case
  proof (intro allI)
    fix acc
    show "walkFieldsFrom (f # fs) (\<lambda>f fs. fs @ [f]) acc
           = acc @ walkFieldsFrom (f # fs) (\<lambda>f fs. fs @ [f]) []"
    proof (cases "PkgPath f \<noteq> []")
      case True
      have step: "walkFieldsFrom (f # fs) (\<lambda>f fs. fs @ [f]) x = walkFieldsFrom fs (\<lambda>f fs. fs @ [f]) x" for x
        using True by simp
      show ?thesis unfolding step by (rule 3(1)[OF True, rule_format])
    next
      case exported: False
      show ?thesis
      proof (cases "Anonymous f \<and> Kind (derefPtr (Type f)) = KStruct")
        case True
        from 3(2)[OF exported True] have a: "\<And>acc. walkStructFields (derefPtr (Type f)) (\<lambda>f fs. fs @ [f]) acc
            = acc @ walkStructFields (derefPtr (Type f)) (\<lambda>f fs. fs @ [f]) []" by blast
        have u: "walkStructFields (derefPtr (Type f)) (\<lambda>f u. u) () = ()" by simp
        from 3(3)[OF exported True u] have b: "\<And>acc. walkFieldsFrom fs (\<lambda>f fs. fs @ [f]) acc
            = acc @ walkFieldsFrom fs (\<lambda>f fs. fs @ [f]) []" by blast
        have "walkFieldsFrom (f # fs) (\<lambda>f fs. fs @ [f]) acc
               = walkFieldsFrom fs (\<lambda>f fs. fs @ [f]) (walkStructFields (derefPtr (Type f)) (\<lambda>f fs. fs @ [f]) acc)"
          using exported True by (auto simp del: walkStructFields.simps)
        also have "\<dots> = acc @ walkStructFields (derefPtr (Type f)) (\<lambda>f fs. fs @ [f]) []
                          @ walkFieldsFrom fs (\<lambda>f fs. fs @ [f]) []"
          by (subst b, subst a) simp
        also have "\<dots> = acc @ walkFieldsFrom fs (\<lambda>f fs. fs @ [f]) (walkStructFields (derefPtr (Type f)) (\<lambda>f fs. fs @ [f]) [])"
          by (subst (2) b) simp
        also have "\<dots> = acc @ walkFieldsFrom (f # fs) (\<lambda>f fs. fs @ [f]) []"
          using exported True by (auto simp del: walkStructFields.simps)
        finally show ?thesis .
      next
        case False
        from 3(4)[OF exported False] have b: "\<And>acc. walkFieldsFrom fs (\<lambda>f fs. fs @ [f]) acc
            = acc @ walkFieldsFrom fs (\<lambda>f fs. fs @ [f]) []" by blast
        have "walkFieldsFrom (f # fs) (\<lambda>f fs. fs @ [f]) acc = walkFieldsFrom fs (\<lambda>f fs. fs @ [f]) (acc @ [f])"
          using exported False by (auto simp del: walkStructFields.simps)
        also have "\<dots> = acc @ [f] @ walkFieldsFrom fs (\<lambda>f fs. fs @ [f]) []"
          by (subst b) simp
        also have "\<dots> = acc @ walkFieldsFrom fs (\<lambda>f fs. fs @ [f]) [f]"
          by (subst (2) b) simp
        also have "\<dots> = acc @ walkFieldsFrom (f # fs) (\<lambda>f fs. fs @ [f]) []"
          using exported False by (auto simp del: walkStructFields.simps)
        finally show ?thesis .
      qed
    qed
  qed
qed

lemma walkFieldsFrom_collect_Cons:
  "walkFieldsFrom (f # fs) (\<lambda>f fs. fs @ [f]) [] =
     (if PkgPath f \<noteq> [] then walkFieldsFrom fs (\<lambda>f fs. fs @ [f]) []
      else if Anonymous f \<and> Kind (derefPtr (Type f)) = KStruct
        then visitedFields (derefPtr (Type f)) @ walkFieldsFrom fs (\<lambda>f fs. fs @ [f]) []
      else f # walkFieldsFrom fs (\<lambda>f fs. fs @ [f]) [])"
proof -
  have a: "walkFieldsFrom fs (\<lambda>f fs. fs @ [f]) acc = acc @ walkFieldsFrom fs (\<lambda>f fs. fs @ [f]) []" for acc
    using collect_append_both(2) by blast
  show ?thesis
    unfolding visitedFields_def
    by (auto simp del: walkStructFields.simps simp: a [of "walkStructFields (derefPtr (Type f)) (\<lambda>f fs. fs @ [f]) []"]
          a [of "[f]"])
qed

lemma walk_as_fold_both:
  "walkStructFields t fn s = foldl (\<lambda>s f. fn f s) s (visitedFields t)"
  "walkFieldsFrom fs0 fn s = foldl (\<lambda>s f. fn f s) s (walkFieldsFrom fs0 (\<lambda>f fs. fs @ [f]) [])"
proof (induction t fn s and fs0 fn s rule: walkStructFields_walkFieldsFrom.induct)
  case (1 t fn s)
  show ?case
  proof (cases "\<exists>fs. derefPtr t = TStruct fs")
    case True
    then obtain fs where d: "derefPtr t = TStruct fs" by blast
    show ?thesis unfolding visitedFields_def walkStructFields.simps d gotype.case by (rule 1[OF d])
  next
    case False
    then show ?thesis unfolding visitedFields_def by (cases "derefPtr t") simp_all
  qed
next
  case (2 fn s)
  show ?case by simp
next
  case (3 f fs fn s)
  show ?case
  proof (cases "PkgPath f \<noteq> []")
    case True
    have "walkFieldsFrom (f # fs) fn s = walkFieldsFrom fs fn s" using True by simp
    also note 3(1)[OF True]
    finally show ?thesis unfolding walkFieldsFrom_collect_Cons using True by simp
  next
    case exported: False
    show ?thesis
    proof (cases "Anonymous f \<and> Kind (derefPtr (Type f)) = KStruct")
      case True
      have "walkFieldsFrom (f # fs) fn s = walkFieldsFrom fs fn (walkStructFields (derefPtr (Type f)) fn s)"
        using exported True by (auto simp del: walkStructFields.simps)
      also note 3(3)[OF exported True]
      also note 3(2)[OF exported True]
      finally show ?thesis unfolding walkFieldsFrom_collect_Cons using exported True by simp
    next
      case False
      have "walkFieldsFrom (f # fs) fn s = walkFieldsFrom fs fn (fn f s)"
        using exported False by (auto simp del: walkStructFields.simps)
      also note 3(4)[OF exported False]
      finally show ?thesis unfolding walkFieldsFrom_collect_Cons using exported False by auto
    qed
  qed
qed

lemma fieldCallback_jsonParams:
  "jsonParams (fieldCallback lib d f a) =
     (if tagged f ''json'' then Mapping.update (tagKey f ''json'') (jsonValue lib d f) (jsonParams a)
      else jsonParams a)"
  by (simp add: fieldCallback_def tagged_def Let_def)

lemma fieldCallback_formParams:
  "formParams (fieldCallback lib d f a) =
     formParams a
     @ (if tagged f ''form''
        then [\<lparr> fp_Key = tagKey f ''form'', fp_Value = Sprint lib (finalPlaceholder lib d f),
                 fp_Type = ''text'', fp_Description = TagGet (Tag f) ''description'' \<rparr>]
        else [])
     @ (if tagged f ''formFile''
        then [\<lparr> fp_Key = tagKey f ''formFile'', fp_Value = Sprint lib (finalPlaceholder lib d f),
                 fp_Type = ''file'', fp_Description = TagGet (Tag f) ''description'' \<rparr>]
        else [])"
  by (simp add: fieldCallback_def tagged_def Let_def)

lemma fieldCallback_queryParams:
  "queryParams (fieldCallback lib d f a) =
     queryParams a
     @ (if tagged f ''query''
        then [\<lparr> qp_Key = tagKey f ''query'', qp_Value = Sprint lib (finalPlaceholder lib d f),
                 qp_Description = Some (TagGet (Tag f) ''description'') \<rparr>]
        else [])"
  by (simp add: fieldCallback_def tagged_def Let_def)

lemma fieldCallback_pathVariables:
  "pathVariables (fieldCallback lib d f a) =
     pathVariables a
     @ (if tagged f ''param''
        then [\<lparr> var_Key = tagKey f ''param'', var_Type = ''string'',
                 var_Value = Sprint lib (finalPlaceholder lib d f), var_Description = [] \<rparr>]
        else [])"
  by (simp add: fieldCallback_def tagged_def Let_def)

lemma fold_formParams_empty:
  "(formParams (foldl (\<lambda>a f. fieldCallback lib d f a) a fs) = []) =
     (formParams a = [] \<and> (\<forall>f \<in> set fs. \<not> tagged f ''form'' \<and> \<not> tagged f ''formFile''))"
  by (induction fs rule: rev_induct) (auto simp: fieldCallback_formParams)

lemma fold_jsonParams_empty:
  "Mapping.is_empty (jsonParams (foldl (\<lambda>a f. fieldCallback lib d f a) a fs)) =
     (Mapping.is_empty (jsonParams a) \<and> (\<forall>f \<in> set fs. \<not> tagged f ''json''))"
  by (induction fs rule: rev_induct) (auto simp: fieldCallback_jsonParams)

lemma fold_pathVariables:
  "pathVariables (foldl (\<lambda>a f. fieldCallback lib d f a) a fs) =
     pathVariables a @
     map (\<lambda>f. \<lparr> var_Key = tagKey f ''param'', var_Type = ''string'',
                 var_Value = Sprint lib (finalPlaceholder lib d f), var_Description = [] \<rparr>)
         (filter (\<lambda>f. tagged f ''param'') fs)"
  by (induction fs rule: rev_induct) (auto simp: fieldCallback_pathVariables)

lemma HasPrefix_colon: "HasPrefix s '':'' \<Longrightarrow> '':'' @ TrimPrefix s '':'' = s"
  by (cases s) auto

lemma pathLoop_eq:
  "pathLoop pvs segs visited vars =
     (visited @ segs,
      vars @ map (\<lambda>s. urlVariableFor pvs (TrimPrefix s '':'')) (filter (\<lambda>s. HasPrefix s '':'') segs))"
proof (induction segs arbitrary: visited vars)
  case Nil
  show ?case by simp
next
  case (Cons segment rest)
  show ?case
  proof (cases "HasPrefix segment '':''")
    case True
    have "pathLoop pvs (segment # rest) visited vars =
          pathLoop pvs rest (visited @ ['':'' @ TrimPrefix segment '':''])
             (vars @ [urlVariableFor pvs (TrimPrefix segment '':'')])"
      using True by (simp add: Let_def del: HasPrefix.simps TrimPrefix.simps)
    also have "\<dots> = pathLoop pvs rest (visited @ [segment])
             (vars @ [urlVariableFor pvs (TrimPrefix segment '':'')])"
      using HasPrefix_colon[OF True] by simp
    finally show ?thesis using True by (simp add: Cons.IH del: HasPrefix.simps TrimPrefix.simps)
  next
    case False
    then show ?thesis by (simp add: Cons.IH del: HasPrefix.simps TrimPrefix.simps)
  qed
qed

lemma lookupPathVariable_none:
  "k \<notin> var_Key ` set pvs \<Longrightarrow> lookupPathVariable k pvs dflt = dflt"
  by (induction pvs) auto

lemma lookupPathVariable_no_description:
  "\<forall>pv \<in> set pvs. var_Description pv = [] \<Longrightarrow> snd (lookupPathVariable k pvs (v, [])) = []"
  by (induction pvs) auto

lemma buildRequest_url:
  assumes "buildRequest lib defaults method path typ = Inr (pathSegments, request)"
  shows "pathSegments = Split (Trim path ''/'') CHR ''/''"
    and "req_URL request =
          \<lparr> url_Raw = ''{{base_url}}'' @ ''/'' @ Join pathSegments ''/'',
            url_Host = [''{{base_url}}''],
            url_Path = pathSegments,
            url_Query = queryParams (collectFields lib defaults typ),
            url_Variables =
              map (\<lambda>s. urlVariableFor
                           (pathVariables (collectFields lib defaults typ))
                           (TrimPrefix s '':''))
                  (filter (\<lambda>s. HasPrefix s '':'') pathSegments) \<rparr>"
    and "req_Method request = method"
  using assms
  by (auto simp add: buildRequest_def pathLoop_eq Let_def
           simp del: HasPrefix.simps TrimPrefix.simps walkStructFields.simps
           split: if_splits sum.splits)

lemma walk_as_fold:
  "walkStructFields t fn s = foldl (\<lambda>s f. fn f s) s (visitedFields t)"
  by (rule walk_as_fold_both)

lemma walk_pathVariables:
  "pathVariables (collectFields lib d typ) =
     map (\<lambda>f. \<lparr> var_Key = tagKey f ''param'', var_Type = ''string'',
                 var_Value = Sprint lib (finalPlaceholder lib d f), var_Description = [] \<rparr>)
         (filter (\<lambda>f. tagged f ''param'') (visitedFields typ))"
proof -
  have "pathVariables emptyAcc = []" by (simp add: emptyAcc_def)
  then show ?thesis
    unfolding collectFields_def walk_as_fold [of "typ" "fieldCallback lib d" emptyAcc] fold_pathVariables
    by simp
qed

lemma urlVariableFor_unmatched:
  "k \<notin> var_Key ` set pvs \<Longrightarrow>
     urlVariableFor pvs k = \<lparr> var_Key = k, var_Type = ''string'', var_Value = '':'' @ k, var_Description = [] \<rparr>"
  by (simp add: urlVariableFor_def lookupPathVariable_none)

lemma urlVariableFor_key: "var_Key (urlVariableFor pvs k) = k" "var_Type (urlVariableFor pvs k) = ''string''"
  by (simp_all add: urlVariableFor_def split: prod.splits)

lemma url_variables_no_description:
  assumes "buildRequest lib defaults method path typ = Inr (segs, req)"
    and "v \<in> set (url_Variables (req_URL req))"
  shows "var_Description v = []"
proof -
  let ?pvs = "pathVariables (collectFields lib defaults typ)"
  have none: "\<forall>pv \<in> set ?pvs. var_Description pv = []"
    unfolding walk_pathVariables by simp
  from assms(2) obtain k where "v = urlVariableFor ?pvs k"
    unfolding buildRequest_url(2)[OF assms(1)] by auto
  then have "var_Description v = snd (lookupPathVariable k ?pvs ('':'' @ k, []))"
    by (simp add: urlVariableFor_def split: prod.splits)
  with lookupPathVariable_no_description[OF none] show ?thesis by simp
qed

lemma collect_formParams_empty:
  "(formParams (collectFields lib d typ) = []) =
     (\<forall>f \<in> set (visitedFields typ). \<not> tagged f ''form'' \<and> \<not> tagged f ''formFile'')"
proof -
  have "formParams emptyAcc = []" by (simp add: emptyAcc_def)
  then show ?thesis
    unfolding collectFields_def walk_as_fold [of "typ" "fieldCallback lib d" emptyAcc]
      fold_formParams_empty
    by simp
qed

lemma collect_jsonParams_empty:
  "Mapping.is_empty (jsonParams (collectFields lib d typ)) =
     (\<forall>f \<in> set (visitedFields typ). \<not> tagged f ''json'')"
proof -
  have "Mapping.is_empty (jsonParams emptyAcc)" by (simp add: emptyAcc_def)
  then show ?thesis
    unfolding collectFields_def walk_as_fold [of "typ" "fieldCallback lib d" emptyAcc]
      fold_jsonParams_empty
    by simp
qed

lemma natStr_0: "natStr 0 = ''0''"
  by (simp add: natStr.simps [of 0] digitChar_def)

lemma findFolder_Some:
  "findFolder seg cur = Some i \<Longrightarrow>
     i < length cur \<and> item_Name (cur ! i) = seg \<and> item_Request (cur ! i) = None
     \<and> (\<forall>j < i. \<not> (item_Name (cur ! j) = seg \<and> item_Request (cur ! j) = None))"
proof (induction cur arbitrary: i)
  case Nil
  then show ?case by simp
next
  case (Cons x xs)
  show ?case
  proof (cases "item_Name x = seg \<and> item_Request x = None")
    case True
    with Cons.prems show ?thesis by simp
  next
    case False
    with Cons.prems obtain i' where i': "findFolder seg xs = Some i'" "i = Suc i'"
      by auto
    from Cons.IH[OF i'(1)] False i'(2) show ?thesis
      by (auto simp: less_Suc_eq_0_disj)
  qed
qed

lemma findFolder_None:
  "(findFolder seg cur = None) = (\<forall>c \<in> set cur. \<not> (item_Name c = seg \<and> item_Request c = None))"
  by (induction cur) auto

lemma findFolder_append_new:
  "findFolder seg cur = None \<Longrightarrow> findFolder seg (cur @ [Items seg None cs]) = Some (length cur)"
  by (induction cur) (auto split: if_splits)

lemma findFolder_update:
  "findFolder seg cur = Some i \<Longrightarrow>
     findFolder seg (cur[i := Items (item_Name (cur ! i)) (item_Request (cur ! i)) cs]) = Some i"
proof (induction cur arbitrary: i)
  case Nil
  then show ?case by simp
next
  case (Cons x xs)
  show ?case
  proof (cases "item_Name x = seg \<and> item_Request x = None")
    case True
    with Cons.prems show ?thesis by simp
  next
    case False
    with Cons.prems obtain i' where i': "findFolder seg xs = Some i'" "i = Suc i'"
      by auto
    from Cons.IH[OF i'(1)] False i'(2) show ?thesis by simp
  qed
qed

lemma folderAt_Nil: "folderAt segs [] = (if segs = [] then Some [] else None)"
  by (cases segs) auto

lemma folderAt_attachItem:
  "folderAt segs (attachItem segs item cur) =
     Some ((case folderAt segs cur of Some cs \<Rightarrow> cs | None \<Rightarrow> []) @ [item])"
proof (induction segs arbitrary: cur)
  case Nil
  show ?case by simp
next
  case (Cons seg rest)
  show ?case
  proof (cases "findFolder seg cur")
    case None
    have "folderAt (seg # rest) (attachItem (seg # rest) item cur)
          = folderAt rest (attachItem rest item [])"
      using None by (simp add: findFolder_append_new)
    also have "\<dots> = Some ([] @ [item])"
      unfolding Cons.IH by (simp add: folderAt_Nil)
    finally show ?thesis using None by simp
  next
    case (Some i)
    from findFolder_Some[OF Some] have il: "i < length cur" by blast
    have "folderAt (seg # rest) (attachItem (seg # rest) item cur)
          = folderAt rest (attachItem rest item (item_Items (cur ! i)))"
      using Some il by (simp add: findFolder_update)
    then show ?thesis using Some by (simp add: Cons.IH)
  qed
qed

lemma sum_list_update_nat:
  "i < length xs \<Longrightarrow> sum_list (xs[i := (v::nat)]) + xs ! i = sum_list xs + v"
  by (induction xs arbitrary: i) (auto simp: nth_Cons split: nat.splits)

lemma countNodes_attachItem_existing:
  "folderAt segs cur \<noteq> None \<Longrightarrow>
     sum_list (map countNodes (attachItem segs item cur))
       = sum_list (map countNodes cur) + countNodes item"
proof (induction segs arbitrary: cur)
  case Nil
  show ?case by simp
next
  case (Cons seg rest)
  from Cons.prems obtain i where i: "findFolder seg cur = Some i"
    and sub: "folderAt rest (item_Items (cur ! i)) \<noteq> None"
    by (auto split: option.splits)
  from findFolder_Some[OF i] have il: "i < length cur" by blast
  let ?new = "Items (item_Name (cur ! i)) (item_Request (cur ! i))
                (attachItem rest item (item_Items (cur ! i)))"
  have cn: "countNodes ?new = countNodes (cur ! i) + countNodes item"
    using Cons.IH[OF sub] by (cases "cur ! i") simp
  have "sum_list (map countNodes (cur[i := ?new])) + countNodes (cur ! i)
        = sum_list (map countNodes cur) + countNodes ?new"
    using sum_list_update_nat[of i "map countNodes cur" "countNodes ?new"] il
    by (simp add: map_update)
  with cn have "sum_list (map countNodes (cur[i := ?new]))
        = sum_list (map countNodes cur) + countNodes item" by simp
  then show ?case using i by simp
qed

lemma filter_update_same:
  "i < length xs \<Longrightarrow> isFolder x = isFolder (xs ! i) \<Longrightarrow> item_Name x = item_Name (xs ! i) \<Longrightarrow>
     map item_Name (filter isFolder (xs[i := x])) = map item_Name (filter isFolder xs)"
  by (induction xs arbitrary: i) (auto simp: nth_Cons split: nat.splits)

lemma uniqueGroups_iff: "uniqueGroups x = treeInvariant (item_Items x)"
  by (cases x) (simp add: treeInvariant_def)

lemma treeInvariant_attachItem:
  assumes "item_Request item \<noteq> None" and "uniqueGroups item"
  shows "treeInvariant cur \<Longrightarrow> treeInvariant (attachItem segs item cur)"
proof (induction segs arbitrary: cur)
  case Nil
  with assms show ?case by (auto simp: treeInvariant_def isFolder_def)
next
  case (Cons seg rest)
  show ?case
  proof (cases "findFolder seg cur")
    case None
    have "treeInvariant []" by (simp add: treeInvariant_def)
    from Cons.IH[OF this] have sub: "treeInvariant (attachItem rest item [])" .
    from None have fresh: "seg \<notin> item_Name ` set (filter isFolder cur)"
      by (auto simp: findFolder_None isFolder_def)
    from Cons.prems sub fresh show ?thesis
      using None by (auto simp: treeInvariant_def isFolder_def)
  next
    case (Some i)
    from findFolder_Some[OF Some] have il: "i < length cur"
      and req: "item_Request (cur ! i) = None" by blast+
    let ?new = "Items (item_Name (cur ! i)) (item_Request (cur ! i))
                (attachItem rest item (item_Items (cur ! i)))"
    from il have mem: "cur ! i \<in> set cur" by (rule nth_mem)
    with Cons.prems have "uniqueGroups (cur ! i)" by (simp add: treeInvariant_def)
    then have "treeInvariant (item_Items (cur ! i))" by (simp add: uniqueGroups_iff)
    from Cons.IH[OF this] have new: "uniqueGroups ?new" by (simp add: treeInvariant_def)
    have names: "map item_Name (filter isFolder (cur[i := ?new])) = map item_Name (filter isFolder cur)"
      by (rule filter_update_same[OF il]) (simp_all add: isFolder_def)
    have "\<forall>c \<in> set (cur[i := ?new]). uniqueGroups c"
    proof
      fix c assume "c \<in> set (cur[i := ?new])"
      then have "c = ?new \<or> c \<in> set cur" using set_update_subset_insert[of cur i ?new] by auto
      with new Cons.prems show "uniqueGroups c" by (auto simp: treeInvariant_def)
    qed
    with names Cons.prems have "treeInvariant (cur[i := ?new])"
      by (simp add: treeInvariant_def)
    then show ?thesis using Some by simp
  qed
qed

lemma buildRequest_segs_nonempty:
  "buildRequest lib defaults method path typ = Inr (segs, req) \<Longrightarrow> segs \<noteq> []"
  using buildRequest_url(1) Split_nonempty by metis

lemma Kind_derefPtr_struct:
  "(Kind (derefPtr t) = KStruct) = (\<exists>fs. t = TStruct fs \<or> t = TPtr (TStruct fs))"
proof (cases t)
  case (TPtr e)
  then show ?thesis by (cases e) auto
qed auto

lemma asString_Some: "(asString v = Some s) = (v = Some (SVString s))"
  by (cases "(v)" rule: asString.cases) auto

lemma asType_Some: "(asType v = Some t) = (v = Some (SVType t))"
  by (cases "(v)" rule: asType.cases) auto

lemma Register_malformed:
  "asString (spec ''method'') = None \<or> asString (spec ''path'') = None
     \<or> asType (spec ''inputType'') = None \<Longrightarrow>
   Register lib p spec = (p, Some InvalidSpec)"
  by (auto simp: Register_def split: option.splits)

lemma Register_wellformed:
  assumes "spec ''method'' = Some (SVString m)" and "spec ''path'' = Some (SVString pa)"
    and "spec ''inputType'' = Some (SVType ty)"
  shows "Register lib p spec =
     (if Kind (derefPtr ty) \<noteq> KStruct then (p, Some InvalidObjectType)
      else (case buildRequest lib (placeholderDefaults p) m pa (derefPtr ty) of
              Inl err \<Rightarrow> (p, Some err)
            | Inr (pathSegments, request) \<Rightarrow>
                (p\<lparr> collection := (collection p)\<lparr> col_Items :=
                       attachItem (butlast pathSegments)
                         (Items (last pathSegments) (Some request) [])
                         (col_Items (collection p)) \<rparr> \<rparr>, None)))"
  using assms
  by (auto simp: Register_def Let_def dest: buildRequest_segs_nonempty split: sum.splits)

lemma buildRequest_error:
  "buildRequest lib defaults method path typ = Inl err \<Longrightarrow>
     \<exists>msg. err = MarshalFailed msg
       \<and> jsonMarshalIndent lib (jsonParams (collectFields lib defaults typ)) [] ''  '' = Inl msg"
  by (auto simp: buildRequest_def Let_def split: if_splits sum.splits prod.splits)

lemma findFolder_first:
  "i < length cur \<Longrightarrow> item_Name (cur ! i) = seg \<Longrightarrow> item_Request (cur ! i) = None \<Longrightarrow>
   (\<forall>j < i. \<not> (item_Name (cur ! j) = seg \<and> item_Request (cur ! j) = None)) \<Longrightarrow>
   findFolder seg cur = Some i"
proof (induction cur arbitrary: i)
  case Nil
  then show ?case by simp
next
  case (Cons x xs)
  show ?case
  proof (cases i)
    case 0
    with Cons.prems show ?thesis by simp
  next
    case (Suc i')
    with Cons.prems have x: "\<not> (item_Name x = seg \<and> item_Request x = None)"
      by (metis nth_Cons_0 zero_less_Suc)
    have "findFolder seg xs = Some i'"
    proof (rule Cons.IH)
      show "i' < length xs" using Cons.prems(1) Suc by simp
      show "item_Name (xs ! i') = seg" using Cons.prems(2) Suc by simp
      show "item_Request (xs ! i') = None" using Cons.prems(3) Suc by simp
      show "\<forall>j<i'. \<not> (item_Name (xs ! j) = seg \<and> item_Request (xs ! j) = None)"
      proof (intro allI impI)
        fix j assume "j < i'"
        then have "Suc j < i" using Suc by simp
        with Cons.prems(4) have "\<not> (item_Name ((x # xs) ! Suc j) = seg \<and> item_Request ((x # xs) ! Suc j) = None)"
          by blast
        then show "\<not> (item_Name (xs ! j) = seg \<and> item_Request (xs ! j) = None)" by simp
      qed
    qed
    with x Suc show ?thesis by auto
  qed
qed

lemma Register_success:
  assumes "Register lib p spec = (p1, None)"
  shows "\<exists>method path inputType segs req.
      spec ''method'' = Some (SVString method) \<and> spec ''path'' = Some (SVString path)
      \<and> spec ''inputType'' = Some (SVType inputType)
      \<and> buildRequest lib (placeholderDefaults p) method path (derefPtr inputType) = Inr (segs, req)
      \<and> segs \<noteq> []
      \<and> p1 = p\<lparr> collection := (collection p)\<lparr> col_Items :=
                 attachItem (butlast segs) (Items (last segs) (Some req) [])
                   (col_Items (collection p)) \<rparr> \<rparr>"
proof -
  have ok: "\<not> (asString (spec ''method'') = None \<or> asString (spec ''path'') = None
     \<or> asType (spec ''inputType'') = None)"
  proof
    assume "asString (spec ''method'') = None \<or> asString (spec ''path'') = None
     \<or> asType (spec ''inputType'') = None"
    from Register_malformed[OF this] assms show False by simp
  qed
  then obtain m pa t where w: "spec ''method'' = Some (SVString m)"
      "spec ''path'' = Some (SVString pa)" "spec ''inputType'' = Some (SVType t)"
    by (auto simp: asString_Some asType_Some)
  from assms obtain segs req where
    b: "buildRequest lib (placeholderDefaults p) m pa (derefPtr t) = Inr (segs, req)"
    and p1: "p1 = p\<lparr> collection := (collection p)\<lparr> col_Items :=
                 attachItem (butlast segs) (Items (last segs) (Some req) [])
                   (col_Items (collection p)) \<rparr> \<rparr>"
    unfolding Register_wellformed[OF w]
    by (auto split: if_splits sum.splits)
  from buildRequest_segs_nonempty[OF b] w b p1 show ?thesis by blast
qed

lemma Register_treeInvariant:
  assumes "treeInvariant (col_Items (collection p))"
  shows "treeInvariant (col_Items (collection (fst (Register lib p spec))))"
proof (cases "snd (Register lib p spec)")
  case None
  then have "Register lib p spec = (fst (Register lib p spec), None)" by (simp add: prod_eq_iff)
  from Register_success[OF this] obtain segs req where
    "fst (Register lib p spec) = p\<lparr> collection := (collection p)\<lparr> col_Items :=
                 attachItem (butlast segs) (Items (last segs) (Some req) [])
                   (col_Items (collection p)) \<rparr> \<rparr>"
    by blast
  moreover have "treeInvariant (attachItem (butlast segs) (Items (last segs) (Some req) [])
                   (col_Items (collection p)))"
    by (rule treeInvariant_attachItem[OF _ _ assms]) simp_all
  ultimately show ?thesis by simp
next
  case (Some err)
  then have "Register lib p spec = (fst (Register lib p spec), Some err)" by (simp add: prod_eq_iff)
  then have "fst (Register lib p spec) = p"
    by (auto simp: Register_def Let_def split: option.splits sum.splits if_splits)
  with assms show ?thesis by simp
qed

lemma example_marshal_age:
  "jsonMarshalIndent exampleLib
     (jsonParams (collectFields exampleLib Map.empty
        (TStruct [SField ''Age'' [] False [(''json'', ''age'')] TInt]))) [] ''  ''
   = Inr (''{'' @ [CHR 0x0A] @ ''  '' @ [CHR 0x22] @ ''age'' @ [CHR 0x22] @ '': 0''
          @ [CHR 0x0A] @ ''}'')"
  by (simp add: exampleLib_def collectFields_def fieldCallback_def emptyAcc_def TagGet_def
        tagKey_def jsonValue_def resolvePlaceholder_def Let_def)

section \<open>Properties of the generator\<close>

text \<open>
  C1. The placeholder of a field follows a fixed precedence, and
  what is resolved is what the slots read. The key of a role is the tag's value,
  or the field's name when the tag is empty or the sentinel. A usable example
  tag (non-empty, not the sentinel) is the placeholder verbatim, whatever the
  caller's defaults hold. Otherwise the defaults are probed with the json, form,
  formFile, query and param keys in this order, the first entry present ends the
  probe, and its value is the placeholder handed to the JSON slot and to the
  string slots, unless that value is itself empty or the sentinel: then, as when
  no entry is present, the JSON slot reads the zero value with preferString
  false and the string slots read the zero value with preferString true. The
  callback writes exactly these values: the JSON value under the json key, the
  printed placeholder into the form, formFile, query and param entries.
\<close>

theorem C1_placeholder_precedence:
  "tagKey field role = (if tagged field role then TagGet (Tag field) role else Name field)
   \<and> (tagged field ''example'' \<longrightarrow>
      resolvePlaceholder defaults field = VStr (TagGet (Tag field) ''example'') \<and>
      jsonValue lib defaults field = VStr (TagGet (Tag field) ''example'') \<and>
      finalPlaceholder lib defaults field = VStr (TagGet (Tag field) ''example''))
   \<and> (\<not> tagged field ''example'' \<longrightarrow>
      resolvePlaceholder defaults field =
        (case List.find (\<lambda>k. defaults k \<noteq> None)
                [tagKey field ''json'', tagKey field ''form'', tagKey field ''formFile'',
                 tagKey field ''query'', tagKey field ''param''] of
           Some k \<Rightarrow> VStr (the (defaults k))
         | None \<Rightarrow> VStr (TagGet (Tag field) ''example'')))
   \<and> (\<not> tagged field ''example'' \<and>
        List.find (\<lambda>k. defaults k \<noteq> None)
                [tagKey field ''json'', tagKey field ''form'', tagKey field ''formFile'',
                 tagKey field ''query'', tagKey field ''param''] = Some k \<and>
        defaults k = Some v \<and> v \<noteq> [] \<and> v \<noteq> ''-'' \<longrightarrow>
      jsonValue lib defaults field = VStr v \<and>
      finalPlaceholder lib defaults field = VStr v)
   \<and> (\<not> tagged field ''example'' \<and>
        List.find (\<lambda>k. defaults k \<noteq> None)
                [tagKey field ''json'', tagKey field ''form'', tagKey field ''formFile'',
                 tagKey field ''query'', tagKey field ''param''] = Some k \<and>
        (defaults k = Some [] \<or> defaults k = Some ''-'') \<longrightarrow>
      jsonValue lib defaults field = TypeZeroValue lib (Type field) False \<and>
      finalPlaceholder lib defaults field = TypeZeroValue lib (Type field) True)
   \<and> (\<not> tagged field ''example'' \<and>
        List.find (\<lambda>k. defaults k \<noteq> None)
                [tagKey field ''json'', tagKey field ''form'', tagKey field ''formFile'',
                 tagKey field ''query'', tagKey field ''param''] = None \<longrightarrow>
      jsonValue lib defaults field = TypeZeroValue lib (Type field) False \<and>
      finalPlaceholder lib defaults field = TypeZeroValue lib (Type field) True)
   \<and> jsonParams (fieldCallback lib defaults field acc) =
       (if tagged field ''json''
        then Mapping.update (tagKey field ''json'') (jsonValue lib defaults field) (jsonParams acc)
        else jsonParams acc)
   \<and> formParams (fieldCallback lib defaults field acc) =
       formParams acc
       @ (if tagged field ''form''
          then [\<lparr> fp_Key = tagKey field ''form'',
                   fp_Value = Sprint lib (finalPlaceholder lib defaults field),
                   fp_Type = ''text'', fp_Description = TagGet (Tag field) ''description'' \<rparr>]
          else [])
       @ (if tagged field ''formFile''
          then [\<lparr> fp_Key = tagKey field ''formFile'',
                   fp_Value = Sprint lib (finalPlaceholder lib defaults field),
                   fp_Type = ''file'', fp_Description = TagGet (Tag field) ''description'' \<rparr>]
          else [])
   \<and> queryParams (fieldCallback lib defaults field acc) =
       queryParams acc
       @ (if tagged field ''query''
          then [\<lparr> qp_Key = tagKey field ''query'',
                   qp_Value = Sprint lib (finalPlaceholder lib defaults field),
                   qp_Description = Some (TagGet (Tag field) ''description'') \<rparr>]
          else [])
   \<and> pathVariables (fieldCallback lib defaults field acc) =
       pathVariables acc
       @ (if tagged field ''param''
          then [\<lparr> var_Key = tagKey field ''param'', var_Type = ''string'',
                   var_Value = Sprint lib (finalPlaceholder lib defaults field),
                   var_Description = [] \<rparr>]
          else [])"
proof -
  have key: "tagKey field role = (if tagged field role then TagGet (Tag field) role else Name field)"
    by (simp add: tagKey_def tagged_def Let_def)
  have ex: "tagged field ''example'' \<longrightarrow>
      resolvePlaceholder defaults field = VStr (TagGet (Tag field) ''example'') \<and>
      jsonValue lib defaults field = VStr (TagGet (Tag field) ''example'') \<and>
      finalPlaceholder lib defaults field = VStr (TagGet (Tag field) ''example'')"
    by (auto simp: tagged_def resolvePlaceholder_def jsonValue_def finalPlaceholder_def Let_def)
  have probe: "\<not> tagged field ''example'' \<longrightarrow>
      resolvePlaceholder defaults field =
        (case List.find (\<lambda>k. defaults k \<noteq> None)
                [tagKey field ''json'', tagKey field ''form'', tagKey field ''formFile'',
                 tagKey field ''query'', tagKey field ''param''] of
           Some k \<Rightarrow> VStr (the (defaults k))
         | None \<Rightarrow> VStr (TagGet (Tag field) ''example''))"
    by (auto simp: tagged_def resolvePlaceholder_def Let_def split: option.splits)
  have slots: "jsonValue lib defaults field =
        (if resolvePlaceholder defaults field = VStr [] \<or> resolvePlaceholder defaults field = VStr ''-''
         then TypeZeroValue lib (Type field) False else resolvePlaceholder defaults field)"
      "finalPlaceholder lib defaults field =
        (if resolvePlaceholder defaults field = VStr [] \<or> resolvePlaceholder defaults field = VStr ''-''
         then TypeZeroValue lib (Type field) True else resolvePlaceholder defaults field)"
    by (simp_all add: jsonValue_def finalPlaceholder_def Let_def)
  have unset: "\<not> tagged field ''example'' \<Longrightarrow>
      TagGet (Tag field) ''example'' = [] \<or> TagGet (Tag field) ''example'' = ''-''"
    by (auto simp: tagged_def)
  have usable: "\<not> tagged field ''example'' \<and>
        List.find (\<lambda>k. defaults k \<noteq> None)
                [tagKey field ''json'', tagKey field ''form'', tagKey field ''formFile'',
                 tagKey field ''query'', tagKey field ''param''] = Some k \<and>
        defaults k = Some v \<and> v \<noteq> [] \<and> v \<noteq> ''-'' \<longrightarrow>
      jsonValue lib defaults field = VStr v \<and>
      finalPlaceholder lib defaults field = VStr v"
    using probe by (simp add: slots)
  have sentinel: "\<not> tagged field ''example'' \<and>
        List.find (\<lambda>k. defaults k \<noteq> None)
                [tagKey field ''json'', tagKey field ''form'', tagKey field ''formFile'',
                 tagKey field ''query'', tagKey field ''param''] = Some k \<and>
        (defaults k = Some [] \<or> defaults k = Some ''-'') \<longrightarrow>
      jsonValue lib defaults field = TypeZeroValue lib (Type field) False \<and>
      finalPlaceholder lib defaults field = TypeZeroValue lib (Type field) True"
    using probe by (auto simp: slots)
  have none: "\<not> tagged field ''example'' \<and>
        List.find (\<lambda>k. defaults k \<noteq> None)
                [tagKey field ''json'', tagKey field ''form'', tagKey field ''formFile'',
                 tagKey field ''query'', tagKey field ''param''] = None \<longrightarrow>
      jsonValue lib defaults field = TypeZeroValue lib (Type field) False \<and>
      finalPlaceholder lib defaults field = TypeZeroValue lib (Type field) True"
    using probe unset by (auto simp: slots)
  from key ex probe usable sentinel none show ?thesis
    by (simp only: fieldCallback_jsonParams fieldCallback_formParams fieldCallback_queryParams
          fieldCallback_pathVariables simp_thms)
qed

text \<open>A field whose json key and query key both have a default: the json entry
  wins and is what the query slot shows; with an example tag the example wins;
  a field with no json tag is found under its name; a default holding the
  sentinel and no default at all both give an integer field its zero value.\<close>

theorem C1_placeholder_precedence_witness:
  "resolvePlaceholder [''id'' \<mapsto> ''from-json'', ''q'' \<mapsto> ''from-query'']
      (SField ''F'' [] False [(''json'', ''id''), (''query'', ''q'')] TInt) = VStr ''from-json''
   \<and> jsonValue exampleLib [''id'' \<mapsto> ''from-json'', ''q'' \<mapsto> ''from-query'']
      (SField ''F'' [] False [(''json'', ''id''), (''query'', ''q'')] TInt) = VStr ''from-json''
   \<and> queryParams (fieldCallback exampleLib [''id'' \<mapsto> ''from-json'', ''q'' \<mapsto> ''from-query'']
      (SField ''F'' [] False [(''json'', ''id''), (''query'', ''q'')] TInt) emptyAcc)
       = [\<lparr> qp_Key = ''q'', qp_Value = ''from-json'', qp_Description = Some [] \<rparr>]
   \<and> finalPlaceholder exampleLib [''id'' \<mapsto> ''from-json'', ''q'' \<mapsto> ''from-query'']
      (SField ''F'' [] False [(''json'', ''id''), (''query'', ''q''), (''example'', ''7'')] TInt)
        = VStr ''7''
   \<and> finalPlaceholder exampleLib [''TenantID'' \<mapsto> ''by-name'']
      (SField ''TenantID'' [] False [(''query'', ''tenant_id'')] TString) = VStr ''by-name''
   \<and> finalPlaceholder exampleLib [''id'' \<mapsto> ''-'']
      (SField ''F'' [] False [(''json'', ''id''), (''query'', ''q'')] TInt) = VInt 0
   \<and> finalPlaceholder exampleLib Map.empty
      (SField ''F'' [] False [(''json'', ''id''), (''query'', ''q'')] TInt) = VInt 0"
proof -
  let ?F = "SField ''F'' [] False [(''json'', ''id''), (''query'', ''q'')] TInt"
  let ?E = "SField ''F'' [] False [(''json'', ''id''), (''query'', ''q''), (''example'', ''7'')] TInt"
  let ?T = "SField ''TenantID'' [] False [(''query'', ''tenant_id'')] TString"
  let ?D = "[''id'' \<mapsto> ''from-json'', ''q'' \<mapsto> ''from-query'']"
  have kF: "tagKey ?F ''json'' = ''id''" "tagKey ?F ''query'' = ''q''"
    using C1_placeholder_precedence [of ?F "''json''"] C1_placeholder_precedence [of ?F "''query''"]
    by (simp_all add: tagged_def TagGet_def)
  have kT: "tagKey ?T ''json'' = ''TenantID''"
    using C1_placeholder_precedence [of ?T "''json''"] by (simp add: tagged_def TagGet_def)
  have nF: "\<not> tagged ?F ''example''" and nT: "\<not> tagged ?T ''example''"
    and qF: "tagged ?F ''query''"
    by (simp_all add: tagged_def TagGet_def)
  note t = C1_placeholder_precedence [of ?F "''json''" ?D exampleLib "''id''" "''from-json''" emptyAcc]
  have a: "resolvePlaceholder ?D ?F = VStr ''from-json''"
    using t nF by (simp add: kF)
  have b: "jsonValue exampleLib ?D ?F = VStr ''from-json''"
    and b': "finalPlaceholder exampleLib ?D ?F = VStr ''from-json''"
    using t nF by (simp_all add: kF)
  have c: "queryParams (fieldCallback exampleLib ?D ?F emptyAcc)
       = [\<lparr> qp_Key = ''q'', qp_Value = ''from-json'', qp_Description = Some [] \<rparr>]"
    using t qF by (simp add: kF b' emptyAcc_def TagGet_def)
  have d: "finalPlaceholder exampleLib ?D ?E = VStr ''7''"
    using C1_placeholder_precedence [of ?E "''json''" ?D exampleLib]
    by (simp add: tagged_def TagGet_def)
  have e: "finalPlaceholder exampleLib [''TenantID'' \<mapsto> ''by-name''] ?T = VStr ''by-name''"
    using C1_placeholder_precedence [of ?T "''json''" "[''TenantID'' \<mapsto> ''by-name'']" exampleLib "''TenantID''" "''by-name''"]
      nT by (simp add: kT)
  have f: "finalPlaceholder exampleLib [''id'' \<mapsto> ''-''] ?F = VInt 0"
    using C1_placeholder_precedence [of ?F "''json''" "[''id'' \<mapsto> ''-'']" exampleLib "''id''"] nF
    by (simp add: kF)
  have g: "finalPlaceholder exampleLib Map.empty ?F = VInt 0"
    using C1_placeholder_precedence [of ?F "''json''" Map.empty exampleLib] nF by simp
  from a b c d e f g show ?thesis by (intro conjI)
qed

text \<open>
  C1 without the exception for an entry that holds the empty string or the
  sentinel (the first present entry's value is always the placeholder, the zero
  value is used only when no entry is present) does not hold: the integer field
  Count with json and query key \<^verbatim>\<open>count\<close> and the default \<^verbatim>\<open>count\<close> = \<^verbatim>\<open>-\<close> has
  a present first entry, yet the JSON slot holds 0 and the query slot shows
  \<^verbatim>\<open>0\<close>, not \<^verbatim>\<open>-\<close>.
\<close>

theorem C1_sentinel_default_counterexample:
  "\<not> tagged (SField ''Count'' [] False [(''json'', ''count''), (''query'', ''count'')] TInt) ''example''
   \<and> [''count'' \<mapsto> ''-'']
        (tagKey (SField ''Count'' [] False [(''json'', ''count''), (''query'', ''count'')] TInt) ''json'')
       = Some ''-''
   \<and> jsonValue exampleLib [''count'' \<mapsto> ''-'']
        (SField ''Count'' [] False [(''json'', ''count''), (''query'', ''count'')] TInt) = VInt 0
   \<and> finalPlaceholder exampleLib [''count'' \<mapsto> ''-'']
        (SField ''Count'' [] False [(''json'', ''count''), (''query'', ''count'')] TInt) = VInt 0
   \<and> jsonValue exampleLib [''count'' \<mapsto> ''-'']
        (SField ''Count'' [] False [(''json'', ''count''), (''query'', ''count'')] TInt) \<noteq> VStr ''-''
   \<and> finalPlaceholder exampleLib [''count'' \<mapsto> ''-'']
        (SField ''Count'' [] False [(''json'', ''count''), (''query'', ''count'')] TInt) \<noteq> VStr ''-''
   \<and> queryParams (fieldCallback exampleLib [''count'' \<mapsto> ''-'']
        (SField ''Count'' [] False [(''json'', ''count''), (''query'', ''count'')] TInt) emptyAcc)
       = [\<lparr> qp_Key = ''count'', qp_Value = ''0'', qp_Description = Some [] \<rparr>]"
  by (simp add: tagged_def TagGet_def tagKey_def jsonValue_def finalPlaceholder_def
        resolvePlaceholder_def fieldCallback_def emptyAcc_def intStr_def natStr_0 Let_def)

text \<open>
  C2. The body mode of a compiled request is decided by first match. When a
  visited field carries a form or formFile tag, the body is form data, the only
  header is \<^verbatim>\<open>Content-Type: multipart/form-data\<close>, and neither raw JSON text nor
  the JSON language option is set. Else, when a visited field carries a json
  tag, the body is raw with the text the encoder returns for the JSON field map
  with empty prefix and an indent of two spaces, the language option is json and
  the only header is \<^verbatim>\<open>Content-Type: application/json\<close> (a failing encoder gives
  the wrapped error and no request). Else the body is empty and there is no
  header.
\<close>

theorem C2_body_mode:
  "((\<exists>f \<in> set (visitedFields typ). tagged f ''form'' \<or> tagged f ''formFile'') \<longrightarrow>
      (\<exists>segs req. buildRequest lib defaults method path typ = Inr (segs, req)
         \<and> req_Header req = [\<lparr> hdr_Key = ''Content-Type'', hdr_Value = ''multipart/form-data'' \<rparr>]
         \<and> req_Body req = \<lparr> body_Mode = ''formdata'', body_Raw = [],
                              body_FormData = Some (formParams (collectFields lib defaults typ)),
                              body_Options = None \<rparr>))
   \<and> (\<not> (\<exists>f \<in> set (visitedFields typ). tagged f ''form'' \<or> tagged f ''formFile'')
        \<and> (\<exists>f \<in> set (visitedFields typ). tagged f ''json'') \<longrightarrow>
      (case jsonMarshalIndent lib (jsonParams (collectFields lib defaults typ)) [] ''  '' of
         Inl err \<Rightarrow> buildRequest lib defaults method path typ = Inl (MarshalFailed err)
       | Inr bodyBytes \<Rightarrow>
           (\<exists>segs req. buildRequest lib defaults method path typ = Inr (segs, req)
              \<and> req_Header req = [\<lparr> hdr_Key = ''Content-Type'', hdr_Value = ''application/json'' \<rparr>]
              \<and> req_Body req = \<lparr> body_Mode = ''raw'', body_Raw = bodyBytes,
                                   body_FormData = None, body_Options = Some ''json'' \<rparr>)))
   \<and> (\<not> (\<exists>f \<in> set (visitedFields typ). tagged f ''form'' \<or> tagged f ''formFile'')
        \<and> \<not> (\<exists>f \<in> set (visitedFields typ). tagged f ''json'') \<longrightarrow>
      (\<exists>segs req. buildRequest lib defaults method path typ = Inr (segs, req)
         \<and> req_Header req = []
         \<and> req_Body req = \<lparr> body_Mode = [], body_Raw = [], body_FormData = None,
                              body_Options = None \<rparr>))"
proof (intro conjI impI)
  assume "\<exists>f \<in> set (visitedFields typ). tagged f ''form'' \<or> tagged f ''formFile''"
  then have "formParams (collectFields lib defaults typ) \<noteq> []"
    unfolding collect_formParams_empty by blast
  then show "\<exists>segs req. buildRequest lib defaults method path typ = Inr (segs, req)
         \<and> req_Header req = [\<lparr> hdr_Key = ''Content-Type'', hdr_Value = ''multipart/form-data'' \<rparr>]
         \<and> req_Body req = \<lparr> body_Mode = ''formdata'', body_Raw = [],
                              body_FormData = Some (formParams (collectFields lib defaults typ)),
                              body_Options = None \<rparr>"
    by (simp add: buildRequest_def Let_def split: prod.splits)
next
  assume "\<not> (\<exists>f \<in> set (visitedFields typ). tagged f ''form'' \<or> tagged f ''formFile'')
        \<and> (\<exists>f \<in> set (visitedFields typ). tagged f ''json'')"
  then have "formParams (collectFields lib defaults typ) = []"
    and "\<not> Mapping.is_empty (jsonParams (collectFields lib defaults typ))"
    unfolding collect_formParams_empty collect_jsonParams_empty by blast+
  then show "case jsonMarshalIndent lib (jsonParams (collectFields lib defaults typ)) [] ''  '' of
         Inl err \<Rightarrow> buildRequest lib defaults method path typ = Inl (MarshalFailed err)
       | Inr bodyBytes \<Rightarrow>
           (\<exists>segs req. buildRequest lib defaults method path typ = Inr (segs, req)
              \<and> req_Header req = [\<lparr> hdr_Key = ''Content-Type'', hdr_Value = ''application/json'' \<rparr>]
              \<and> req_Body req = \<lparr> body_Mode = ''raw'', body_Raw = bodyBytes,
                                   body_FormData = None, body_Options = Some ''json'' \<rparr>)"
    by (simp add: buildRequest_def Let_def split: prod.splits sum.splits)
next
  assume "\<not> (\<exists>f \<in> set (visitedFields typ). tagged f ''form'' \<or> tagged f ''formFile'')
        \<and> \<not> (\<exists>f \<in> set (visitedFields typ). tagged f ''json'')"
  then have "formParams (collectFields lib defaults typ) = []"
    and "Mapping.is_empty (jsonParams (collectFields lib defaults typ))"
    unfolding collect_formParams_empty collect_jsonParams_empty by blast+
  then show "\<exists>segs req. buildRequest lib defaults method path typ = Inr (segs, req)
         \<and> req_Header req = []
         \<and> req_Body req = \<lparr> body_Mode = [], body_Raw = [], body_FormData = None,
                              body_Options = None \<rparr>"
    by (simp add: buildRequest_def Let_def split: prod.splits)
qed

text \<open>A record with a field tagged both json and form yields form data; a record
  with one json field yields the indented JSON text; the empty record yields no
  body.\<close>

theorem C2_body_mode_witness:
  "(\<exists>segs req. buildRequest exampleLib Map.empty ''POST'' ''/users''
        (TStruct [SField ''Name'' [] False [(''json'', ''name''), (''form'', ''name'')] TString])
        = Inr (segs, req)
      \<and> req_Header req = [\<lparr> hdr_Key = ''Content-Type'', hdr_Value = ''multipart/form-data'' \<rparr>]
      \<and> req_Body req = \<lparr> body_Mode = ''formdata'', body_Raw = [],
           body_FormData = Some (formParams (collectFields exampleLib Map.empty
             (TStruct [SField ''Name'' [] False [(''json'', ''name''), (''form'', ''name'')] TString]))),
           body_Options = None \<rparr>)
   \<and> (\<exists>segs req. buildRequest exampleLib Map.empty ''POST'' ''/users''
        (TStruct [SField ''Age'' [] False [(''json'', ''age'')] TInt]) = Inr (segs, req)
      \<and> req_Header req = [\<lparr> hdr_Key = ''Content-Type'', hdr_Value = ''application/json'' \<rparr>]
      \<and> req_Body req = \<lparr> body_Mode = ''raw'',
           body_Raw = ''{'' @ [CHR 0x0A] @ ''  '' @ [CHR 0x22] @ ''age'' @ [CHR 0x22] @ '': 0''
                      @ [CHR 0x0A] @ ''}'',
           body_FormData = None, body_Options = Some ''json'' \<rparr>)
   \<and> (\<exists>segs req. buildRequest exampleLib Map.empty ''GET'' ''/ping'' (TStruct []) = Inr (segs, req)
      \<and> req_Header req = []
      \<and> req_Body req = \<lparr> body_Mode = [], body_Raw = [], body_FormData = None,
                           body_Options = None \<rparr>)"
proof -
  let ?T1 = "TStruct [SField ''Name'' [] False [(''json'', ''name''), (''form'', ''name'')] TString]"
  let ?T2 = "TStruct [SField ''Age'' [] False [(''json'', ''age'')] TInt]"
  have h1: "\<exists>f \<in> set (visitedFields ?T1). tagged f ''form'' \<or> tagged f ''formFile''"
    by (simp add: visitedFields_def tagged_def TagGet_def)
  have h2: "\<not> (\<exists>f \<in> set (visitedFields ?T2). tagged f ''form'' \<or> tagged f ''formFile'')
        \<and> (\<exists>f \<in> set (visitedFields ?T2). tagged f ''json'')"
    by (simp add: visitedFields_def tagged_def TagGet_def)
  have h3: "\<not> (\<exists>f \<in> set (visitedFields (TStruct [])). tagged f ''form'' \<or> tagged f ''formFile'')
        \<and> \<not> (\<exists>f \<in> set (visitedFields (TStruct [])). tagged f ''json'')"
    by (simp add: visitedFields_def)
  have m: "jsonMarshalIndent exampleLib (jsonParams (collectFields exampleLib Map.empty ?T2)) [] ''  ''
      = Inr (''{'' @ [CHR 0x0A] @ ''  '' @ [CHR 0x22] @ ''age'' @ [CHR 0x22] @ '': 0''
                      @ [CHR 0x0A] @ ''}'')"
    by (simp add: exampleLib_def collectFields_def fieldCallback_def emptyAcc_def TagGet_def
          tagKey_def jsonValue_def resolvePlaceholder_def Let_def)
  note a = C2_body_mode [of ?T1 exampleLib Map.empty "''POST''" "''/users''",
             THEN conjunct1, rule_format, OF h1]
  note b = C2_body_mode [of ?T2 exampleLib Map.empty "''POST''" "''/users''",
             THEN conjunct2, THEN conjunct1, rule_format, OF h2, unfolded m sum.case]
  note c = C2_body_mode [of "TStruct []" exampleLib Map.empty "''GET''" "''/ping''",
             THEN conjunct2, THEN conjunct2, rule_format, OF h3]
  from a b c show ?thesis by (intro conjI)
qed

text \<open>
  C3. Filing a request walks the folder segments: from an empty walk the item
  is appended to the current slice; when no child of the current slice is a
  folder named as the segment, a new folder is appended and the walk goes on
  inside it; when there is one, the first such child is reused, the walk goes on
  in its children, and nothing else of the slice changes. Whatever the tree,
  after the walk the folder reached by the segments holds its former children
  followed by the new item. A successful Register files the request under all
  but the last path segment with the last segment as the leaf's name, and a
  second Register of the same spec succeeds too, puts a second equal leaf right
  after the first in the same folder, and adds exactly one node to the tree.
\<close>

theorem C3_attach_request:
  "attachItem [] item cur = cur @ [item]
   \<and> ((\<forall>c \<in> set cur. \<not> (item_Name c = seg \<and> item_Request c = None)) \<longrightarrow>
        attachItem (seg # rest) item cur = cur @ [Items seg None (attachItem rest item [])])
   \<and> (i < length cur \<and> item_Name (cur ! i) = seg \<and> item_Request (cur ! i) = None
        \<and> (\<forall>j < i. \<not> (item_Name (cur ! j) = seg \<and> item_Request (cur ! j) = None)) \<longrightarrow>
        attachItem (seg # rest) item cur
          = cur[i := Items seg None (attachItem rest item (item_Items (cur ! i)))])
   \<and> folderAt segs (attachItem segs item cur)
        = Some ((case folderAt segs cur of Some cs \<Rightarrow> cs | None \<Rightarrow> []) @ [item])
   \<and> (Register lib p spec = (p1, None) \<longrightarrow>
        (\<exists>req cs p2.
            url_Path (req_URL req) \<noteq> []
          \<and> col_Items (collection p1)
              = attachItem (butlast (url_Path (req_URL req)))
                  (Items (last (url_Path (req_URL req))) (Some req) [])
                  (col_Items (collection p))
          \<and> folderAt (butlast (url_Path (req_URL req))) (col_Items (collection p1))
              = Some (cs @ [Items (last (url_Path (req_URL req))) (Some req) []])
          \<and> Register lib p1 spec = (p2, None)
          \<and> folderAt (butlast (url_Path (req_URL req))) (col_Items (collection p2))
              = Some (cs @ [Items (last (url_Path (req_URL req))) (Some req) [],
                            Items (last (url_Path (req_URL req))) (Some req) []])
          \<and> sum_list (map countNodes (col_Items (collection p2)))
              = Suc (sum_list (map countNodes (col_Items (collection p1))))))"
proof (intro conjI impI)
  show "attachItem [] item cur = cur @ [item]" by simp
next
  assume "\<forall>c \<in> set cur. \<not> (item_Name c = seg \<and> item_Request c = None)"
  then have "findFolder seg cur = None" by (simp add: findFolder_None)
  then show "attachItem (seg # rest) item cur = cur @ [Items seg None (attachItem rest item [])]"
    by simp
next
  assume a: "i < length cur \<and> item_Name (cur ! i) = seg \<and> item_Request (cur ! i) = None
        \<and> (\<forall>j < i. \<not> (item_Name (cur ! j) = seg \<and> item_Request (cur ! j) = None))"
  then have "findFolder seg cur = Some i" by (intro findFolder_first) blast+
  with a show "attachItem (seg # rest) item cur
          = cur[i := Items seg None (attachItem rest item (item_Items (cur ! i)))]"
    by simp
next
  show "folderAt segs (attachItem segs item cur)
        = Some ((case folderAt segs cur of Some cs \<Rightarrow> cs | None \<Rightarrow> []) @ [item])"
    by (rule folderAt_attachItem)
next
  assume r: "Register lib p spec = (p1, None)"
  from Register_success[OF r] obtain m pa t segs req where
    w: "spec ''method'' = Some (SVString m)" "spec ''path'' = Some (SVString pa)"
       "spec ''inputType'' = Some (SVType t)"
    and b: "buildRequest lib (placeholderDefaults p) m pa (derefPtr t) = Inr (segs, req)"
    and ne: "segs \<noteq> []"
    and p1: "p1 = p\<lparr> collection := (collection p)\<lparr> col_Items :=
                 attachItem (butlast segs) (Items (last segs) (Some req) [])
                   (col_Items (collection p)) \<rparr> \<rparr>"
    by blast
  from buildRequest_url(2)[OF b] have path: "url_Path (req_URL req) = segs" by simp
  let ?leaf = "Items (last segs) (Some req) []"
  let ?folder = "butlast segs"
  let ?t0 = "col_Items (collection p)"
  let ?t1 = "attachItem ?folder ?leaf ?t0"
  let ?t2 = "attachItem ?folder ?leaf ?t1"
  define cs where "cs = (case folderAt ?folder ?t0 of Some cs \<Rightarrow> cs | None \<Rightarrow> [])"
  have items1: "col_Items (collection p1) = ?t1" by (simp add: p1)
  have d1: "placeholderDefaults p1 = placeholderDefaults p" by (simp add: p1)
  have k: "Kind (derefPtr t) = KStruct"
  proof (rule ccontr)
    assume "Kind (derefPtr t) \<noteq> KStruct"
    with r show False unfolding Register_wellformed[OF w] by simp
  qed
  define p2 where "p2 = p1\<lparr> collection := (collection p1)\<lparr> col_Items := ?t2 \<rparr> \<rparr>"
  have r2: "Register lib p1 spec = (p2, None)"
    unfolding Register_wellformed[OF w] d1 using k b by (simp add: p2_def items1)
  have f1: "folderAt ?folder ?t1 = Some (cs @ [?leaf])"
    by (simp add: folderAt_attachItem cs_def)
  have f2: "folderAt ?folder ?t2 = Some (cs @ [?leaf, ?leaf])"
    by (simp add: folderAt_attachItem cs_def)
  have "folderAt ?folder ?t1 \<noteq> None" using f1 by simp
  from countNodes_attachItem_existing[OF this]
  have c2: "sum_list (map countNodes ?t2) = Suc (sum_list (map countNodes ?t1))" by simp
  have items2: "col_Items (collection p2) = ?t2" by (simp add: p2_def)
  show "\<exists>req cs p2.
            url_Path (req_URL req) \<noteq> []
          \<and> col_Items (collection p1)
              = attachItem (butlast (url_Path (req_URL req)))
                  (Items (last (url_Path (req_URL req))) (Some req) [])
                  (col_Items (collection p))
          \<and> folderAt (butlast (url_Path (req_URL req))) (col_Items (collection p1))
              = Some (cs @ [Items (last (url_Path (req_URL req))) (Some req) []])
          \<and> Register lib p1 spec = (p2, None)
          \<and> folderAt (butlast (url_Path (req_URL req))) (col_Items (collection p2))
              = Some (cs @ [Items (last (url_Path (req_URL req))) (Some req) [],
                            Items (last (url_Path (req_URL req))) (Some req) []])
          \<and> sum_list (map countNodes (col_Items (collection p2)))
              = Suc (sum_list (map countNodes (col_Items (collection p1))))"
    apply (rule exI[of _ req], rule exI[of _ cs], rule exI[of _ p2])
    unfolding path items1 items2
    using ne r2 f1 f2 c2 by (intro conjI) simp_all
qed

text \<open>The registration of \<^verbatim>\<open>GET /users/:userId\<close> of the example program, made
  twice on a new generator; a leaf named \<^verbatim>\<open>users\<close> that is not taken for the folder;
  a folder \<^verbatim>\<open>users\<close> behind such a leaf that is reused.\<close>

theorem C3_attach_request_witness:
  "(\<exists>p1 p2 folder leaf cs.
      Register exampleLib (NewPostmanGen ''API'' []) getUserSpec = (p1, None)
    \<and> Register exampleLib p1 getUserSpec = (p2, None)
    \<and> item_Request leaf \<noteq> None
    \<and> folderAt folder (col_Items (collection p1)) = Some (cs @ [leaf])
    \<and> folderAt folder (col_Items (collection p2)) = Some (cs @ [leaf, leaf])
    \<and> sum_list (map countNodes (col_Items (collection p2)))
         = Suc (sum_list (map countNodes (col_Items (collection p1)))))
   \<and> attachItem [''users''] (Items ''me'' (Some exampleRequest) [])
        [Items ''users'' (Some exampleRequest) []]
      = [Items ''users'' (Some exampleRequest) [],
         Items ''users'' None [Items ''me'' (Some exampleRequest) []]]
   \<and> attachItem [''users''] (Items ''me'' (Some exampleRequest) [])
        [Items ''users'' (Some exampleRequest) [], Items ''users'' None []]
      = [Items ''users'' (Some exampleRequest) [],
         Items ''users'' None [Items ''me'' (Some exampleRequest) []]]"
proof -
  let ?P = "NewPostmanGen ''API'' []"
  have "snd (Register exampleLib ?P getUserSpec) = None"
    by (simp add: Register_def getUserSpec_def GetUserRequest_def buildRequest_def
          NewPostmanGen_def collectFields_def fieldCallback_def emptyAcc_def Trim_def TagGet_def
          tagKey_def finalPlaceholder_def resolvePlaceholder_def urlVariableFor_def Let_def)
  then have h: "Register exampleLib ?P getUserSpec = (fst (Register exampleLib ?P getUserSpec), None)"
    by (simp add: prod_eq_iff)
  from C3_attach_request [where lib = exampleLib and p = ?P and spec = getUserSpec
        and ?p1.0 = "fst (Register exampleLib ?P getUserSpec)",
        THEN conjunct2, THEN conjunct2, THEN conjunct2, THEN conjunct2, rule_format, OF h]
  obtain req cs p2 where
    "folderAt (butlast (url_Path (req_URL req)))
        (col_Items (collection (fst (Register exampleLib ?P getUserSpec))))
       = Some (cs @ [Items (last (url_Path (req_URL req))) (Some req) []])"
    "Register exampleLib (fst (Register exampleLib ?P getUserSpec)) getUserSpec = (p2, None)"
    "folderAt (butlast (url_Path (req_URL req))) (col_Items (collection p2))
       = Some (cs @ [Items (last (url_Path (req_URL req))) (Some req) [],
                     Items (last (url_Path (req_URL req))) (Some req) []])"
    "sum_list (map countNodes (col_Items (collection p2)))
       = Suc (sum_list (map countNodes
           (col_Items (collection (fst (Register exampleLib ?P getUserSpec))))))"
    by blast
  with h have twice: "\<exists>p1 p2 folder leaf cs.
      Register exampleLib (NewPostmanGen ''API'' []) getUserSpec = (p1, None)
    \<and> Register exampleLib p1 getUserSpec = (p2, None)
    \<and> item_Request leaf \<noteq> None
    \<and> folderAt folder (col_Items (collection p1)) = Some (cs @ [leaf])
    \<and> folderAt folder (col_Items (collection p2)) = Some (cs @ [leaf, leaf])
    \<and> sum_list (map countNodes (col_Items (collection p2)))
         = Suc (sum_list (map countNodes (col_Items (collection p1))))"
    by (intro exI [of _ "fst (Register exampleLib ?P getUserSpec)"] exI [of _ p2]
          exI [of _ "butlast (url_Path (req_URL req))"]
          exI [of _ "Items (last (url_Path (req_URL req))) (Some req) []"] exI [of _ cs])
       simp
  have fresh: "attachItem [''users''] (Items ''me'' (Some exampleRequest) [])
        [Items ''users'' (Some exampleRequest) []]
      = [Items ''users'' (Some exampleRequest) [],
         Items ''users'' None [Items ''me'' (Some exampleRequest) []]]"
    using C3_attach_request [of "Items ''me'' (Some exampleRequest) []" "[]"]
          C3_attach_request [of "Items ''me'' (Some exampleRequest) []"
            "[Items ''users'' (Some exampleRequest) []]" "''users''" "[]"]
    by simp
  have reuse: "attachItem [''users''] (Items ''me'' (Some exampleRequest) [])
        [Items ''users'' (Some exampleRequest) [], Items ''users'' None []]
      = [Items ''users'' (Some exampleRequest) [],
         Items ''users'' None [Items ''me'' (Some exampleRequest) []]]"
    using C3_attach_request [of "Items ''me'' (Some exampleRequest) []" "[]"]
          C3_attach_request [of "Items ''me'' (Some exampleRequest) []"
            "[Items ''users'' (Some exampleRequest) [], Items ''users'' None []]"
            "''users''" "[]" 1]
    by simp
  from twice fresh reuse show ?thesis by (intro conjI)
qed

text \<open>
  C4. The tree of a new generator has the invariant that the folders among the
  children of any one node have pairwise different names, and every sequence of
  Register calls, whether they succeed or fail, preserves it. The search that
  decides on reuse only ever returns a child with no request, so request leaves
  are never matched and may share a name.
\<close>

theorem C4_unique_group_names:
  "treeInvariant (col_Items (collection (NewPostmanGen name description)))
   \<and> (treeInvariant (col_Items (collection p)) \<longrightarrow>
        treeInvariant (col_Items (collection
          (foldl (\<lambda>q spec. fst (Register lib q spec)) p specs))))
   \<and> (findFolder seg cur = Some i \<longrightarrow> item_Request (cur ! i) = None)"
proof (intro conjI impI)
  show "treeInvariant (col_Items (collection (NewPostmanGen name description)))"
    by (simp add: NewPostmanGen_def treeInvariant_def)
next
  assume "treeInvariant (col_Items (collection p))"
  then show "treeInvariant (col_Items (collection
          (foldl (\<lambda>q spec. fst (Register lib q spec)) p specs)))"
    by (induction specs arbitrary: p) (simp_all add: Register_treeInvariant)
next
  assume "findFolder seg cur = Some i"
  from findFolder_Some[OF this] show "item_Request (cur ! i) = None" by blast
qed

text \<open>Three registrations on a new generator, two of them identical (two leaves
  of one name in the folder \<^verbatim>\<open>users\<close>).\<close>

theorem C4_unique_group_names_witness:
  "treeInvariant (col_Items (collection
     (foldl (\<lambda>q spec. fst (Register exampleLib q spec)) (NewPostmanGen ''API'' [])
        [getUserSpec, getUserSpec, ageSpec])))"
  using C4_unique_group_names [of "''API''" "[]" "NewPostmanGen ''API'' []" exampleLib
          "[getUserSpec, getUserSpec, ageSpec]"]
  by blast

text \<open>
  C5. For a field with no usable example tag and no caller default under any of
  its five keys, the callback stores, under the json key, the zero value
  computed with preferString false (when the field has a json tag) and appends
  to the form, formFile, query and param slots (for each such tag of the field)
  the printed zero value computed with preferString true. The zero value of a
  field of a predeclared integer type is 0 and prints as \<^verbatim>\<open>0\<close>, that of a
  \<^verbatim>\<open>bool\<close> field is false and prints as \<^verbatim>\<open>false\<close>; the zero value of any other
  type that is not a pointer, slice or struct (a float, a map, a defined type
  with its own String method) keeps its type and prints as the library prints
  it; a pointer type takes the zero value of its element type; for a struct
  type the native zero value is the zero instance and the string form is its
  JSON text when the encoder returns one; for a slice type it is a one-element
  sequence holding the zero value of the element type.
\<close>

theorem C5_zero_values:
  assumes "\<not> tagged field ''example''"
    and "defaults (tagKey field ''json'') = None"
    and "defaults (tagKey field ''form'') = None"
    and "defaults (tagKey field ''formFile'') = None"
    and "defaults (tagKey field ''query'') = None"
    and "defaults (tagKey field ''param'') = None"
  shows "fieldCallback lib defaults field acc =
      acc\<lparr> jsonParams :=
             (if tagged field ''json''
              then Mapping.update (tagKey field ''json'') (TypeZeroValue lib (Type field) False)
                     (jsonParams acc)
              else jsonParams acc),
           formParams := formParams acc
             @ (if tagged field ''form''
                then [\<lparr> fp_Key = tagKey field ''form'',
                         fp_Value = Sprint lib (TypeZeroValue lib (Type field) True),
                         fp_Type = ''text'',
                         fp_Description = TagGet (Tag field) ''description'' \<rparr>]
                else [])
             @ (if tagged field ''formFile''
                then [\<lparr> fp_Key = tagKey field ''formFile'',
                         fp_Value = Sprint lib (TypeZeroValue lib (Type field) True),
                         fp_Type = ''file'',
                         fp_Description = TagGet (Tag field) ''description'' \<rparr>]
                else []),
           queryParams := queryParams acc
             @ (if tagged field ''query''
                then [\<lparr> qp_Key = tagKey field ''query'',
                         qp_Value = Sprint lib (TypeZeroValue lib (Type field) True),
                         qp_Description = Some (TagGet (Tag field) ''description'') \<rparr>]
                else []),
           pathVariables := pathVariables acc
             @ (if tagged field ''param''
                then [\<lparr> var_Key = tagKey field ''param'', var_Type = ''string'',
                         var_Value = Sprint lib (TypeZeroValue lib (Type field) True),
                         var_Description = [] \<rparr>]
                else []) \<rparr>
    \<and> TypeZeroValue lib TInt False = VInt 0
    \<and> TypeZeroValue lib TBool False = VBool False
    \<and> Sprint lib (TypeZeroValue lib TInt True) = ''0''
    \<and> Sprint lib (TypeZeroValue lib TBool True) = ''false''
    \<and> (\<forall>n preferString. TypeZeroValue lib (TOther n) preferString = VZero (TOther n)
          \<and> Sprint lib (TypeZeroValue lib (TOther n) True) = sprintZero lib (TOther n))
    \<and> (\<forall>e preferString. TypeZeroValue lib (TPtr e) preferString = TypeZeroValue lib e preferString)
    \<and> (\<forall>fs. TypeZeroValue lib (TStruct fs) False = VZero (TStruct fs))
    \<and> (\<forall>fs s. jsonMarshal lib (VZero (TStruct fs)) = Inr s \<longrightarrow>
          TypeZeroValue lib (TStruct fs) True = VStr s
          \<and> Sprint lib (TypeZeroValue lib (TStruct fs) True) = s)
    \<and> (\<forall>e preferString.
          TypeZeroValue lib (TSlice e) preferString = VSlice [TypeZeroValue lib e preferString]
          \<and> Sprint lib (TypeZeroValue lib (TSlice e) True)
              = ''['' @ Sprint lib (TypeZeroValue lib e True) @ '']'')"
proof -
  from assms have r: "resolvePlaceholder defaults field = VStr (TagGet (Tag field) ''example'')"
    by (simp add: resolvePlaceholder_def Let_def)
  from assms(1) have e: "TagGet (Tag field) ''example'' = [] \<or> TagGet (Tag field) ''example'' = ''-''"
    by (auto simp: tagged_def)
  from r e have j: "jsonValue lib defaults field = TypeZeroValue lib (Type field) False"
    by (auto simp: jsonValue_def Let_def)
  from r e have f: "finalPlaceholder lib defaults field = TypeZeroValue lib (Type field) True"
    by (auto simp: finalPlaceholder_def Let_def)
  have cb: "fieldCallback lib defaults field acc =
      acc\<lparr> jsonParams := jsonParams (fieldCallback lib defaults field acc),
           formParams := formParams (fieldCallback lib defaults field acc),
           queryParams := queryParams (fieldCallback lib defaults field acc),
           pathVariables := pathVariables (fieldCallback lib defaults field acc) \<rparr>"
    by (simp add: fieldCallback_def Let_def)
  show ?thesis
    apply (subst cb)
    apply (simp only: fieldCallback_jsonParams fieldCallback_formParams fieldCallback_queryParams
        fieldCallback_pathVariables j f)
    apply (simp add: intStr_def natStr_0)
    done
qed

text \<open>The field \<^verbatim>\<open>Age int `json:"age" query:"age"`\<close> with no defaults; a field of
  type \<^verbatim>\<open>time.Duration\<close>, whose query slot shows what its String method prints;
  the string form of the zero value of the empty struct.\<close>

theorem C5_zero_values_witness:
  "fieldCallback exampleLib Map.empty
     (SField ''Age'' [] False [(''json'', ''age''), (''query'', ''age'')] TInt) emptyAcc
   = \<lparr> jsonParams = Mapping.update ''age'' (VInt 0) Mapping.empty,
       formParams = [],
       queryParams = [\<lparr> qp_Key = ''age'', qp_Value = ''0'', qp_Description = Some [] \<rparr>],
       pathVariables = [] \<rparr>
   \<and> fieldCallback exampleLib Map.empty
     (SField ''Timeout'' [] False [(''json'', ''timeout''), (''query'', ''timeout'')]
        (TOther ''time.Duration'')) emptyAcc
   = \<lparr> jsonParams = Mapping.update ''timeout'' (VZero (TOther ''time.Duration'')) Mapping.empty,
       formParams = [],
       queryParams = [\<lparr> qp_Key = ''timeout'', qp_Value = ''0s'', qp_Description = Some [] \<rparr>],
       pathVariables = [] \<rparr>
   \<and> Sprint exampleLib (TypeZeroValue exampleLib (TStruct []) True) = ''{}''"
proof -
  let ?F = "SField ''Age'' [] False [(''json'', ''age''), (''query'', ''age'')] TInt"
  let ?G = "SField ''Timeout'' [] False [(''json'', ''timeout''), (''query'', ''timeout'')]
        (TOther ''time.Duration'')"
  have h: "\<not> tagged ?F ''example''" by (simp add: tagged_def TagGet_def)
  have h': "\<not> tagged ?G ''example''" by (simp add: tagged_def TagGet_def)
  have m: "jsonMarshal exampleLib (VZero (TStruct [])) = Inr ''{}''" by (simp add: exampleLib_def)
  have z: "sprintZero exampleLib (TOther ''time.Duration'') = ''0s''" by (simp add: exampleLib_def)
  note t = C5_zero_values [of ?F Map.empty exampleLib emptyAcc, OF h]
  note t' = C5_zero_values [of ?G Map.empty exampleLib emptyAcc, OF h']
  have a: "fieldCallback exampleLib Map.empty ?F emptyAcc
      = \<lparr> jsonParams = Mapping.update ''age'' (VInt 0) Mapping.empty,
       formParams = [],
       queryParams = [\<lparr> qp_Key = ''age'', qp_Value = ''0'', qp_Description = Some [] \<rparr>],
       pathVariables = [] \<rparr>"
    using t [THEN conjunct1]
    by (simp add: tagged_def TagGet_def tagKey_def emptyAcc_def intStr_def natStr_0)
  have a': "fieldCallback exampleLib Map.empty ?G emptyAcc
      = \<lparr> jsonParams = Mapping.update ''timeout'' (VZero (TOther ''time.Duration'')) Mapping.empty,
       formParams = [],
       queryParams = [\<lparr> qp_Key = ''timeout'', qp_Value = ''0s'', qp_Description = Some [] \<rparr>],
       pathVariables = [] \<rparr>"
    using t' [THEN conjunct1]
    by (simp add: tagged_def TagGet_def tagKey_def emptyAcc_def z)
  have b: "Sprint exampleLib (TypeZeroValue exampleLib (TStruct []) True) = ''{}''"
    using t m by blast
  from a a' b show ?thesis by (intro conjI)
qed

text \<open>
  C6. Registering method GET and path \<^verbatim>\<open>/users/:userId\<close> with a record whose one
  (exported, not embedded) field is tagged \<^verbatim>\<open>param:"userId" example:"abc"\<close>, for
  any field name and field type, any caller defaults and any generator state:
  the compiled request has the path segments users and :userId, exactly one URL
  variable, with key userId and value abc, and the raw URL
  \<^verbatim>\<open>{{base_url}}/users/:userId\<close>; Register returns no error and files this request
  as the leaf \<^verbatim>\<open>:userId\<close> under the folder \<^verbatim>\<open>users\<close>.
\<close>

theorem C6_get_user_by_id:
  "buildRequest lib defaults ''GET'' ''/users/:userId''
     (TStruct [SField n [] False [(''param'', ''userId''), (''example'', ''abc'')] t])
   = Inr ([''users'', '':userId''],
       \<lparr> req_URL = \<lparr> url_Raw = ''{{base_url}}/users/:userId'',
                     url_Host = [''{{base_url}}''],
                     url_Path = [''users'', '':userId''],
                     url_Query = [],
                     url_Variables = [\<lparr> var_Key = ''userId'', var_Type = ''string'',
                                        var_Value = ''abc'', var_Description = [] \<rparr>] \<rparr>,
          req_Method = ''GET'', req_Header = [],
          req_Body = \<lparr> body_Mode = [], body_Raw = [], body_FormData = None,
                       body_Options = None \<rparr> \<rparr>)
   \<and> Register lib p
       [''method'' \<mapsto> SVString ''GET'', ''path'' \<mapsto> SVString ''/users/:userId'',
        ''inputType'' \<mapsto> SVType
           (TStruct [SField n [] False [(''param'', ''userId''), (''example'', ''abc'')] t])]
     = (p\<lparr> collection := (collection p)\<lparr> col_Items :=
            attachItem [''users'']
              (Items '':userId''
                 (Some \<lparr> req_URL = \<lparr> url_Raw = ''{{base_url}}/users/:userId'',
                                      url_Host = [''{{base_url}}''],
                                      url_Path = [''users'', '':userId''],
                                      url_Query = [],
                                      url_Variables = [\<lparr> var_Key = ''userId'', var_Type = ''string'',
                                                         var_Value = ''abc'', var_Description = [] \<rparr>] \<rparr>,
                         req_Method = ''GET'', req_Header = [],
                         req_Body = \<lparr> body_Mode = [], body_Raw = [], body_FormData = None,
                                      body_Options = None \<rparr> \<rparr>) [])
              (col_Items (collection p)) \<rparr> \<rparr>, None)"
proof -
  have b: "buildRequest lib defaults ''GET'' ''/users/:userId''
     (TStruct [SField n [] False [(''param'', ''userId''), (''example'', ''abc'')] t])
   = Inr ([''users'', '':userId''],
       \<lparr> req_URL = \<lparr> url_Raw = ''{{base_url}}/users/:userId'',
                     url_Host = [''{{base_url}}''],
                     url_Path = [''users'', '':userId''],
                     url_Query = [],
                     url_Variables = [\<lparr> var_Key = ''userId'', var_Type = ''string'',
                                        var_Value = ''abc'', var_Description = [] \<rparr>] \<rparr>,
          req_Method = ''GET'', req_Header = [],
          req_Body = \<lparr> body_Mode = [], body_Raw = [], body_FormData = None,
                       body_Options = None \<rparr> \<rparr>)" for defaults
    by (simp add: buildRequest_def collectFields_def fieldCallback_def emptyAcc_def Trim_def
        TagGet_def finalPlaceholder_def resolvePlaceholder_def tagKey_def urlVariableFor_def Let_def)
  show ?thesis
    by (subst Register_wellformed [where m = "''GET''" and pa = "''/users/:userId''"
          and ty = "TStruct [SField n [] False [(''param'', ''userId''), (''example'', ''abc'')] t]"])
       (simp_all add: b)
qed

text \<open>
  C7. In a compiled request the path segments are those of the trimmed and split
  raw path, unchanged (a segment \<^verbatim>\<open>:key\<close> stays \<^verbatim>\<open>:key\<close>), and the raw URL is
  \<^verbatim>\<open>{{base_url}}\<close> followed by a slash and the segments joined by slashes. There
  is one URL variable per segment beginning with a colon, in order, keyed by the
  segment without its colon. When no visited field with a param tag has that key
  as its param key, the variable's value is the segment's own text and its
  description is empty.
\<close>

theorem C7_unmatched_path_variable:
  assumes "buildRequest lib defaults method path typ = Inr (pathSegments, request)"
  shows "pathSegments = Split (Trim path ''/'') CHR ''/''
    \<and> url_Path (req_URL request) = pathSegments
    \<and> url_Raw (req_URL request) = ''{{base_url}}'' @ ''/'' @ Join pathSegments ''/''
    \<and> length (url_Variables (req_URL request)) = length (filter (\<lambda>s. HasPrefix s '':'') pathSegments)
    \<and> (\<forall>i < length (url_Variables (req_URL request)).
          var_Key (url_Variables (req_URL request) ! i)
            = TrimPrefix (filter (\<lambda>s. HasPrefix s '':'') pathSegments ! i) '':''
        \<and> ((\<forall>f \<in> set (visitedFields typ). tagged f ''param'' \<longrightarrow>
               tagKey f ''param'' \<noteq> var_Key (url_Variables (req_URL request) ! i))
             \<longrightarrow> var_Value (url_Variables (req_URL request) ! i)
                   = filter (\<lambda>s. HasPrefix s '':'') pathSegments ! i
               \<and> var_Description (url_Variables (req_URL request) ! i) = []))"
proof -
  let ?acc = "collectFields lib defaults typ"
  let ?vsegs = "filter (\<lambda>s. HasPrefix s '':'') pathSegments"
  note u = buildRequest_url[OF assms]
  have vars: "url_Variables (req_URL request)
      = map (\<lambda>s. urlVariableFor (pathVariables ?acc) (TrimPrefix s '':'')) ?vsegs"
    by (simp add: u(2) del: HasPrefix.simps TrimPrefix.simps walkStructFields.simps)
  have each: "var_Key (url_Variables (req_URL request) ! i) = TrimPrefix (?vsegs ! i) '':''
        \<and> ((\<forall>f \<in> set (visitedFields typ). tagged f ''param'' \<longrightarrow>
               tagKey f ''param'' \<noteq> var_Key (url_Variables (req_URL request) ! i))
             \<longrightarrow> var_Value (url_Variables (req_URL request) ! i) = ?vsegs ! i
               \<and> var_Description (url_Variables (req_URL request) ! i) = [])"
    if i: "i < length (url_Variables (req_URL request))" for i
  proof -
    from i have il: "i < length ?vsegs" by (simp add: vars del: HasPrefix.simps TrimPrefix.simps walkStructFields.simps)
    then have "?vsegs ! i \<in> set ?vsegs" by (rule nth_mem)
    then have pre: "HasPrefix (?vsegs ! i) '':''" by (simp del: HasPrefix.simps)
    have nth: "url_Variables (req_URL request) ! i
         = urlVariableFor (pathVariables ?acc) (TrimPrefix (?vsegs ! i) '':'')"
      unfolding vars using il by (rule nth_map)
    have k: "var_Key (url_Variables (req_URL request) ! i) = TrimPrefix (?vsegs ! i) '':''"
      unfolding nth by (rule urlVariableFor_key)
    have "var_Value (url_Variables (req_URL request) ! i) = ?vsegs ! i
               \<and> var_Description (url_Variables (req_URL request) ! i) = []"
      if nomatch: "\<forall>f \<in> set (visitedFields typ). tagged f ''param'' \<longrightarrow>
               tagKey f ''param'' \<noteq> var_Key (url_Variables (req_URL request) ! i)"
    proof -
      have "TrimPrefix (?vsegs ! i) '':'' \<notin> var_Key ` set (pathVariables ?acc)"
        using nomatch unfolding k walk_pathVariables by (auto simp del: HasPrefix.simps TrimPrefix.simps)
      from urlVariableFor_unmatched[OF this] HasPrefix_colon[OF pre]
      show ?thesis unfolding nth by (simp del: HasPrefix.simps TrimPrefix.simps walkStructFields.simps)
    qed
    with k show ?thesis by blast
  qed
  show ?thesis
    using u(1) each
    by (simp add: u(2) del: HasPrefix.simps TrimPrefix.simps walkStructFields.simps)
qed

text \<open>The request type of the example program on a path with a second variable
  \<^verbatim>\<open>:postId\<close> that no field names.\<close>

theorem C7_unmatched_path_variable_witness:
  "\<exists>req. buildRequest exampleLib Map.empty ''GET'' ''/users/:userId/posts/:postId'' GetUserRequest
        = Inr ([''users'', '':userId'', ''posts'', '':postId''], req)
    \<and> url_Path (req_URL req) = [''users'', '':userId'', ''posts'', '':postId'']
    \<and> url_Raw (req_URL req) = ''{{base_url}}/users/:userId/posts/:postId''
    \<and> length (url_Variables (req_URL req)) = 2
    \<and> var_Key (url_Variables (req_URL req) ! 1) = ''postId''
    \<and> var_Value (url_Variables (req_URL req) ! 1) = '':postId''
    \<and> var_Description (url_Variables (req_URL req) ! 1) = []"
proof -
  let ?S = "[''users'', '':userId'', ''posts'', '':postId'']"
  define req where "req =
       \<lparr> req_URL = \<lparr> url_Raw = ''{{base_url}}/users/:userId/posts/:postId'',
                     url_Host = [''{{base_url}}''],
                     url_Path = [''users'', '':userId'', ''posts'', '':postId''],
                     url_Query =
                       [\<lparr> qp_Key = ''format'', qp_Value = ''full'',
                          qp_Description = Some ''Optional response format (e.g., 'short')'' \<rparr>,
                        \<lparr> qp_Key = ''tenant_id'', qp_Value = [], qp_Description = Some [] \<rparr>],
                     url_Variables =
                       [\<lparr> var_Key = ''userId'', var_Type = ''string'',
                          var_Value = ''user-abc-123'', var_Description = [] \<rparr>,
                        \<lparr> var_Key = ''postId'', var_Type = ''string'',
                          var_Value = '':postId'', var_Description = [] \<rparr>] \<rparr>,
          req_Method = ''GET'', req_Header = [],
          req_Body = \<lparr> body_Mode = [], body_Raw = [], body_FormData = None,
                       body_Options = None \<rparr> \<rparr>"
  have h: "buildRequest exampleLib Map.empty ''GET''
      ''/users/:userId/posts/:postId'' GetUserRequest = Inr (?S, req)"
    unfolding req_def
    by (simp add: buildRequest_def collectFields_def fieldCallback_def emptyAcc_def Trim_def
        TagGet_def finalPlaceholder_def resolvePlaceholder_def tagKey_def urlVariableFor_def Let_def
        GetUserRequest_def)
  note t = C7_unmatched_path_variable [OF h]
  have f: "filter (\<lambda>s. HasPrefix s '':'') ?S = ['':userId'', '':postId'']" by simp
  from t have path: "url_Path (req_URL req) = ?S" by blast
  from t have raw: "url_Raw (req_URL req) = ''{{base_url}}/users/:userId/posts/:postId''"
    by simp
  from t have len: "length (url_Variables (req_URL req)) = 2" unfolding f by simp
  then have one: "1 < length (url_Variables (req_URL req))" by simp
  from t one have key: "var_Key (url_Variables (req_URL req) ! 1) = ''postId''"
    unfolding f by simp
  have nomatch: "\<forall>f \<in> set (visitedFields GetUserRequest). tagged f ''param'' \<longrightarrow>
       tagKey f ''param'' \<noteq> var_Key (url_Variables (req_URL req) ! 1)"
    unfolding key by (simp add: visitedFields_def GetUserRequest_def tagged_def TagGet_def tagKey_def)
  from t one nomatch have "var_Value (url_Variables (req_URL req) ! 1) = '':postId''
      \<and> var_Description (url_Variables (req_URL req) ! 1) = []"
    unfolding f by simp
  with h path raw len key show ?thesis by blast
qed

text \<open>
  C8. For a segment \<^verbatim>\<open>:key\<close> with a matching param field, the URL variable takes
  the field's placeholder as its value, and the field's description tag is meant
  to carry over into the variable's description. The code does not carry it: on
  the registration of \<^verbatim>\<open>GET /users/:userId\<close> of the example program, whose field
  UserID is tagged with the description \<^verbatim>\<open>ID of the user to retrieve\<close>, the URL
  variable userId has the value \<^verbatim>\<open>user-abc-123\<close> and an empty description. The
  path-variable candidate is built without a description, so the loop over the
  segments copies the empty one (lemma \<open>url_variables_no_description\<close>).
\<close>

theorem C8_description_dropped:
  "buildRequest exampleLib [''tenant_id'' \<mapsto> ''default-tenant-001''] ''GET'' ''/users/:userId''
      GetUserRequest
   = Inr ([''users'', '':userId''],
       \<lparr> req_URL = \<lparr> url_Raw = ''{{base_url}}/users/:userId'',
                     url_Host = [''{{base_url}}''],
                     url_Path = [''users'', '':userId''],
                     url_Query =
                       [\<lparr> qp_Key = ''format'', qp_Value = ''full'',
                          qp_Description = Some ''Optional response format (e.g., 'short')'' \<rparr>,
                        \<lparr> qp_Key = ''tenant_id'', qp_Value = ''default-tenant-001'',
                          qp_Description = Some [] \<rparr>],
                     url_Variables = [\<lparr> var_Key = ''userId'', var_Type = ''string'',
                                        var_Value = ''user-abc-123'', var_Description = [] \<rparr>] \<rparr>,
          req_Method = ''GET'', req_Header = [],
          req_Body = \<lparr> body_Mode = [], body_Raw = [], body_FormData = None,
                       body_Options = None \<rparr> \<rparr>)
   \<and> TagGet (Tag (hd (visitedFields GetUserRequest))) ''description'' = ''ID of the user to retrieve''"
  by (simp add: buildRequest_def collectFields_def fieldCallback_def emptyAcc_def Trim_def
        TagGet_def finalPlaceholder_def resolvePlaceholder_def tagKey_def urlVariableFor_def Let_def
        GetUserRequest_def visitedFields_def)

text \<open>
  C9. Register returns one of its two invalid-spec errors exactly when the spec
  map has no string under method, no string under path, no type descriptor under
  inputType, or a type descriptor that is neither a struct nor a pointer to a
  struct. For a spec with all three entries and such a type, when the encoder
  accepts the JSON field map collected from the type, Register returns no error.
\<close>

theorem C9_invalid_spec:
  "((snd (Register lib p spec) = Some InvalidSpec \<or> snd (Register lib p spec) = Some InvalidObjectType)
     = ((\<nexists>m. spec ''method'' = Some (SVString m)) \<or> (\<nexists>pa. spec ''path'' = Some (SVString pa))
        \<or> (\<nexists>t. spec ''inputType'' = Some (SVType t))
        \<or> (\<exists>t. spec ''inputType'' = Some (SVType t)
              \<and> (\<nexists>fs. t = TStruct fs \<or> t = TPtr (TStruct fs)))))
   \<and> (spec ''method'' = Some (SVString m) \<and> spec ''path'' = Some (SVString pa)
        \<and> spec ''inputType'' = Some (SVType t)
        \<and> (\<exists>fs. t = TStruct fs \<or> t = TPtr (TStruct fs))
        \<and> (\<exists>bodyBytes. jsonMarshalIndent lib
               (jsonParams (collectFields lib (placeholderDefaults p) (derefPtr t))) [] ''  ''
               = Inr bodyBytes)
      \<longrightarrow> snd (Register lib p spec) = None)"
proof (intro conjI impI)
  show "(snd (Register lib p spec) = Some InvalidSpec \<or> snd (Register lib p spec) = Some InvalidObjectType)
     = ((\<nexists>m. spec ''method'' = Some (SVString m)) \<or> (\<nexists>pa. spec ''path'' = Some (SVString pa))
        \<or> (\<nexists>t. spec ''inputType'' = Some (SVType t))
        \<or> (\<exists>t. spec ''inputType'' = Some (SVType t)
              \<and> (\<nexists>fs. t = TStruct fs \<or> t = TPtr (TStruct fs))))"
  proof (cases "asString (spec ''method'') = None \<or> asString (spec ''path'') = None
     \<or> asType (spec ''inputType'') = None")
    case True
    from Register_malformed[OF True] have "snd (Register lib p spec) = Some InvalidSpec" by simp
    moreover from True have "(\<nexists>m. spec ''method'' = Some (SVString m))
        \<or> (\<nexists>pa. spec ''path'' = Some (SVString pa)) \<or> (\<nexists>t. spec ''inputType'' = Some (SVType t))"
      by (metis asString_Some asType_Some option.distinct(1))
    ultimately show ?thesis by blast
  next
    case False
    then obtain m' pa' t' where w: "spec ''method'' = Some (SVString m')"
      "spec ''path'' = Some (SVString pa')" "spec ''inputType'' = Some (SVType t')"
      by (auto simp: asString_Some asType_Some)
    show ?thesis
    proof (cases "Kind (derefPtr t') = KStruct")
      case True
      then have rec: "\<exists>fs. t' = TStruct fs \<or> t' = TPtr (TStruct fs)"
        by (simp add: Kind_derefPtr_struct)
      have "snd (Register lib p spec) \<noteq> Some InvalidSpec
          \<and> snd (Register lib p spec) \<noteq> Some InvalidObjectType"
        unfolding Register_wellformed[OF w] using True
        by (auto split: sum.splits dest: buildRequest_error)
      with w rec show ?thesis by auto
    next
      case False
      then have "snd (Register lib p spec) = Some InvalidObjectType"
        unfolding Register_wellformed[OF w] by simp
      moreover from False have "\<nexists>fs. t' = TStruct fs \<or> t' = TPtr (TStruct fs)"
        by (simp add: Kind_derefPtr_struct)
      ultimately show ?thesis using w by auto
    qed
  qed
next
  assume a: "spec ''method'' = Some (SVString m) \<and> spec ''path'' = Some (SVString pa)
        \<and> spec ''inputType'' = Some (SVType t)
        \<and> (\<exists>fs. t = TStruct fs \<or> t = TPtr (TStruct fs))
        \<and> (\<exists>bodyBytes. jsonMarshalIndent lib
               (jsonParams (collectFields lib (placeholderDefaults p) (derefPtr t))) [] ''  ''
               = Inr bodyBytes)"
  then have w: "spec ''method'' = Some (SVString m)" "spec ''path'' = Some (SVString pa)"
      "spec ''inputType'' = Some (SVType t)" by blast+
  from a have k: "Kind (derefPtr t) = KStruct" by (simp add: Kind_derefPtr_struct)
  from a obtain b where b: "jsonMarshalIndent lib
               (jsonParams (collectFields lib (placeholderDefaults p) (derefPtr t))) [] ''  '' = Inr b"
    by blast
  show "snd (Register lib p spec) = None"
    unfolding Register_wellformed[OF w] using k b
    by (auto split: sum.splits dest: buildRequest_error)
qed

text \<open>A well-formed registration whose JSON body encodes, and a spec with no path
  and no type.\<close>

theorem C9_invalid_spec_witness:
  "snd (Register exampleLib (NewPostmanGen ''API'' []) ageSpec) = None
   \<and> (snd (Register exampleLib (NewPostmanGen ''API'' []) [''method'' \<mapsto> SVString ''GET''])
         = Some InvalidSpec
      \<or> snd (Register exampleLib (NewPostmanGen ''API'' []) [''method'' \<mapsto> SVString ''GET''])
         = Some InvalidObjectType)"
proof -
  let ?T = "TStruct [SField ''Age'' [] False [(''json'', ''age'')] TInt]"
  let ?P = "NewPostmanGen ''API'' []"
  have d: "placeholderDefaults ?P = Map.empty" by (simp add: NewPostmanGen_def)
  have h: "ageSpec ''method'' = Some (SVString ''POST'') \<and> ageSpec ''path'' = Some (SVString ''/users'')
        \<and> ageSpec ''inputType'' = Some (SVType ?T)
        \<and> (\<exists>fs. ?T = TStruct fs \<or> ?T = TPtr (TStruct fs))
        \<and> (\<exists>bodyBytes. jsonMarshalIndent exampleLib
               (jsonParams (collectFields exampleLib (placeholderDefaults ?P) (derefPtr ?T))) [] ''  ''
               = Inr bodyBytes)"
    unfolding d by (simp add: ageSpec_def example_marshal_age)
  note a = C9_invalid_spec [of exampleLib ?P ageSpec "''POST''" "''/users''" ?T,
              THEN conjunct2, rule_format, OF h]
  have m: "(\<nexists>m. [''method'' \<mapsto> SVString ''GET''] ''method'' = Some (SVString m))
        \<or> (\<nexists>pa. [''method'' \<mapsto> SVString ''GET''] ''path'' = Some (SVString pa))
        \<or> (\<nexists>t. [''method'' \<mapsto> SVString ''GET''] ''inputType'' = Some (SVType t))
        \<or> (\<exists>t. [''method'' \<mapsto> SVString ''GET''] ''inputType'' = Some (SVType t)
              \<and> (\<nexists>fs. t = TStruct fs \<or> t = TPtr (TStruct fs)))"
    by simp
  note b = C9_invalid_spec [of exampleLib ?P "[''method'' \<mapsto> SVString ''GET'']",
              THEN conjunct1, THEN iffD2, OF m]
  from a b show ?thesis by (intro conjI)
qed

text \<open>
  C10. Whenever Register returns an error, the generator it leaves behind is the
  one it was called on: variables, defaults and tree are unchanged.
\<close>

theorem C10_error_leaves_state:
  "Register lib p spec = (p', Some err) \<Longrightarrow> p' = p"
  by (auto simp: Register_def Let_def split: option.splits sum.splits if_splits)

text \<open>One call for each error: a spec with a missing entry, a pointer to a
  pointer as the type, and a JSON body the encoder refuses.\<close>

theorem C10_error_leaves_state_witness:
  "Register exampleLib (NewPostmanGen ''API'' []) [''method'' \<mapsto> SVString ''GET'']
     = (NewPostmanGen ''API'' [], Some InvalidSpec)
   \<and> Register exampleLib (NewPostmanGen ''API'' [])
       [''method'' \<mapsto> SVString ''GET'', ''path'' \<mapsto> SVString ''/x'',
        ''inputType'' \<mapsto> SVType (TPtr (TPtr (TStruct [])))]
     = (NewPostmanGen ''API'' [], Some InvalidObjectType)
   \<and> Register exampleLib (NewPostmanGen ''API'' [])
       [''method'' \<mapsto> SVString ''POST'', ''path'' \<mapsto> SVString ''/users'',
        ''inputType'' \<mapsto> SVType (TStruct [SField ''Name'' [] False [(''json'', ''name'')] TString])]
     = (NewPostmanGen ''API'' [], Some (MarshalFailed ''unsupported''))"
proof -
  let ?P = "NewPostmanGen ''API'' []"
  let ?S1 = "[''method'' \<mapsto> SVString ''GET'']"
  let ?S2 = "[''method'' \<mapsto> SVString ''GET'', ''path'' \<mapsto> SVString ''/x'',
        ''inputType'' \<mapsto> SVType (TPtr (TPtr (TStruct [])))]"
  let ?S3 = "[''method'' \<mapsto> SVString ''POST'', ''path'' \<mapsto> SVString ''/users'',
        ''inputType'' \<mapsto> SVType (TStruct [SField ''Name'' [] False [(''json'', ''name'')] TString])]"
  have e1: "Register exampleLib ?P ?S1 = (fst (Register exampleLib ?P ?S1), Some InvalidSpec)"
    by (simp add: Register_def)
  have e2: "Register exampleLib ?P ?S2 = (fst (Register exampleLib ?P ?S2), Some InvalidObjectType)"
    by (simp add: Register_def)
  have e3: "Register exampleLib ?P ?S3
      = (fst (Register exampleLib ?P ?S3), Some (MarshalFailed ''unsupported''))"
    by (simp add: Register_def buildRequest_def NewPostmanGen_def exampleLib_def collectFields_def
          fieldCallback_def emptyAcc_def TagGet_def tagKey_def jsonValue_def
          resolvePlaceholder_def Let_def split: prod.splits)
  from e1 C10_error_leaves_state [OF e1] e2 C10_error_leaves_state [OF e2]
       e3 C10_error_leaves_state [OF e3]
  show ?thesis by simp
qed

end
